theory Spec2Isabelle
  imports Complex_Main
begin

section \<open>Multi-scale context features over integral images (contextAverage.hxx)\<close>

text \<open>
  The header \<^verbatim>\<open>contextAverage.hxx\<close> computes, for every location and channel of a
  multi-channel 2D or 3D array, the averages (and variances) over concentric boxes of the
  radii in a list, from integral images.

  Modelling decisions.
  \<^item> The element type \<^verbatim>\<open>T\<close> of the templates is modelled by \<^typ>\<open>real\<close>: the properties
    are stated over exact arithmetic. Where the divisor is zero the C++ division yields an
    infinity or a NaN and HOL yields 0; the theorems that give the value of a quotient
    assume radii for which the divisor is not zero.
  \<^item> The counts \<^verbatim>\<open>n\<close> and \<^verbatim>\<open>n_prev\<close> are C++ \<^verbatim>\<open>int\<close>s: what is assigned to them is
    reduced to 32 bits (\<open>to_int\<close> below), so that a count \<open>(2r+1)^D\<close> above
    \<^verbatim>\<open>INT_MAX\<close> wraps around as it does in the code.
  \<^item> The index type \<^verbatim>\<open>IND\<close> of the templates, whose instances are chosen outside this
    header, is modelled by the unbounded \<^typ>\<open>int\<close>; radii are non-negative. The
    products that the code forms in \<^verbatim>\<open>IND\<close> before it assigns them to an \<^verbatim>\<open>int\<close> are
    taken exactly: for an \<^verbatim>\<open>IND\<close> of 32 bits or more the assigned value is the same
    modulo \<open>2\<^sup>3\<^sup>2\<close>.
  \<^item> A \<^verbatim>\<open>MultiArrayView\<close> is a record of its shape and of its element function. The
    views do not check their indices; the code reads and writes inside the shape only
    when its caller passes arrays of matching shapes, and the model does not track
    accesses outside the shape.
  \<^item> The vector \<^verbatim>\<open>averages\<close> is a list, updated in place by the loop over the radii.
\<close>

subsection \<open>Array views\<close>

record array3 =
  sh0 :: int
  sh1 :: int
  sh2 :: int
  at3 :: "int \<Rightarrow> int \<Rightarrow> int \<Rightarrow> real"

text \<open>The assignment \<^verbatim>\<open>a(x, y, k) = v\<close>.\<close>

definition set3 :: "array3 \<Rightarrow> int \<Rightarrow> int \<Rightarrow> int \<Rightarrow> real \<Rightarrow> array3" where
  "set3 a x y k v = a\<lparr>at3 := \<lambda>i j l. if i = x \<and> j = y \<and> l = k then v else at3 a i j l\<rparr>"

subsection \<open>average_features (2D)\<close>

text \<open>The border test of line 32.\<close>

definition out_of_border :: "int \<Rightarrow> int \<Rightarrow> int \<Rightarrow> array3 \<Rightarrow> bool" where
  "out_of_border r x y integral \<longleftrightarrow>
     x < r \<or> y < r \<or> x + r > sh0 integral - 1 \<or> y + r > sh1 integral - 1"

text \<open>The four corner lookups and their combination, lines 39 to 44.\<close>

definition box_sum :: "int \<Rightarrow> int \<Rightarrow> int \<Rightarrow> int \<Rightarrow> array3 \<Rightarrow> real" where
  "box_sum r x y c integral =
     (let ul = (if x = r \<or> y = r then 0 else at3 integral (x - r - 1) (y - r - 1) c);
          ll = (if y = r then 0 else at3 integral (x + r) (y - r - 1) c);
          ur = (if x = r then 0 else at3 integral (x - r - 1) (y + r) c);
          lr = at3 integral (x + r) (y + r) c
      in lr - ll - ur + ul)"

text \<open>
  The value that a C++ \<^verbatim>\<open>int\<close> (32 bits, two's complement) holds after it is assigned
  the integer \<open>v\<close>: \<open>v\<close> modulo \<open>2\<^sup>3\<^sup>2\<close>, between \<open>-2\<^sup>3\<^sup>1\<close> and \<open>2\<^sup>3\<^sup>1 - 1\<close>.
\<close>

definition to_int :: "int \<Rightarrow> int" where
  "to_int v = (v + 2147483648) mod 4294967296 - 2147483648"

text \<open>
  The divisor \<^verbatim>\<open>n\<close> of line 51, as lines 45 to 50 compute it: \<^verbatim>\<open>n\<close> is an \<^verbatim>\<open>int\<close>,
  assigned in line 45 and again in line 49.
\<close>

definition divisor :: "int list \<Rightarrow> nat \<Rightarrow> int" where
  "divisor radii ir =
     (let n = to_int ((2 * radii ! ir + 1) * (2 * radii ! ir + 1))
      in if ir > 0
         then to_int (n - (2 * radii ! (ir - 1) + 1) * (2 * radii ! (ir - 1) + 1))
         else n)"

text \<open>One iteration of the loop of line 28, for the index \<^verbatim>\<open>ir\<close>.\<close>

definition average_features_body ::
  "int list \<Rightarrow> int \<Rightarrow> int \<Rightarrow> int \<Rightarrow> array3 \<Rightarrow> nat \<Rightarrow> real list \<Rightarrow> real list" where
  "average_features_body radii x y c integral ir averages =
     (let nclasses = sh2 integral in
      if out_of_border (radii ! ir) x y integral
      then averages[ir := 1 / real_of_int nclasses]
      else
        let sum = box_sum (radii ! ir) x y c integral;
            sum = (if ir > 0
                   then sum - averages ! (ir - 1)
                              * real_of_int (2 * radii ! (ir - 1) + 1)
                              * real_of_int (2 * radii ! (ir - 1) + 1)
                   else sum)
        in averages[ir := sum / real_of_int (divisor radii ir)])"

definition average_features ::
  "int list \<Rightarrow> int \<Rightarrow> int \<Rightarrow> int \<Rightarrow> array3 \<Rightarrow> real list \<Rightarrow> real list" where
  "average_features radii x y c integral averages =
     fold (average_features_body radii x y c integral) [0..<length radii] averages"

subsection \<open>average_features_3d_is\<close>

record array4 =
  vsh0 :: int
  vsh1 :: int
  vsh2 :: int
  vsh3 :: int
  at4 :: "int \<Rightarrow> int \<Rightarrow> int \<Rightarrow> int \<Rightarrow> real"

definition set4 :: "array4 \<Rightarrow> int \<Rightarrow> int \<Rightarrow> int \<Rightarrow> int \<Rightarrow> real \<Rightarrow> array4" where
  "set4 a x y z k v =
     a\<lparr>at4 := \<lambda>i j m l. if i = x \<and> j = y \<and> m = z \<and> l = k then v else at4 a i j m l\<rparr>"

text \<open>The border test of line 80.\<close>

definition out_of_border_3d :: "int \<Rightarrow> int \<Rightarrow> int \<Rightarrow> int \<Rightarrow> array4 \<Rightarrow> bool" where
  "out_of_border_3d r x y z integral \<longleftrightarrow>
     x < r \<or> y < r \<or> z < r \<or> x + r > vsh0 integral - 1 \<or> y + r > vsh1 integral - 1
     \<or> z + r > vsh2 integral - 1"

text \<open>The eight corner lookups and their combination, lines 88 to 100.\<close>

definition box_sum_3d :: "int \<Rightarrow> int \<Rightarrow> int \<Rightarrow> int \<Rightarrow> int \<Rightarrow> array4 \<Rightarrow> real" where
  "box_sum_3d r x y z c integral =
     (let uul = (if x = r \<or> y = r \<or> z = r then 0
                 else at4 integral (x - r - 1) (y - r - 1) (z - r - 1) c);
          ull = (if y = r \<or> z = r then 0 else at4 integral (x + r) (y - r - 1) (z - r - 1) c);
          uur = (if x = r \<or> z = r then 0 else at4 integral (x - r - 1) (y + r) (z - r - 1) c);
          ulr = (if z = r then 0 else at4 integral (x + r) (y + r) (z - r - 1) c);
          lul = (if x = r \<or> y = r then 0 else at4 integral (x - r - 1) (y - r - 1) (z + r) c);
          lll = (if y = r then 0 else at4 integral (x + r) (y - r - 1) (z + r) c);
          lur = (if x = r then 0 else at4 integral (x - r - 1) (y + r) (z + r) c);
          llr = at4 integral (x + r) (y + r) (z + r) c
      in uur + ull + llr + lul - ulr - uul - lur - lll)"

text \<open>
  The count \<^verbatim>\<open>n_prev\<close> of line 108 and the divisor \<^verbatim>\<open>n\<close> of line 113, both of type
  \<^verbatim>\<open>int\<close>: \<^verbatim>\<open>n\<close> is assigned in line 102 and again in line 111.
\<close>

definition n_prev :: "int list \<Rightarrow> nat \<Rightarrow> int" where
  "n_prev radii ir =
     to_int ((2 * radii ! (ir - 1) + 1) * (2 * radii ! (ir - 1) + 1) * (2 * radii ! (ir - 1) + 1))"

definition divisor_3d :: "int list \<Rightarrow> nat \<Rightarrow> int" where
  "divisor_3d radii ir =
     (let n = to_int ((2 * radii ! ir + 1) * (2 * radii ! ir + 1) * (2 * radii ! ir + 1))
      in if ir > 0 then to_int (n - n_prev radii ir) else n)"

text \<open>
  One iteration of the loop of line 78. The lines written to \<^verbatim>\<open>std::cout\<close> at the
  location (2, 2, 2) of channel 0 change no array and are left out.
\<close>

definition average_features_3d_is_body ::
  "int list \<Rightarrow> int \<Rightarrow> int \<Rightarrow> int \<Rightarrow> int \<Rightarrow> array4 \<Rightarrow> nat \<Rightarrow> real list \<Rightarrow> real list" where
  "average_features_3d_is_body radii x y z c integral ir averages =
     (let nclasses = vsh3 integral in
      if out_of_border_3d (radii ! ir) x y z integral
      then averages[ir := 1 / real_of_int nclasses]
      else
        let sum = box_sum_3d (radii ! ir) x y z c integral;
            sum = (if ir > 0
                   then sum - averages ! (ir - 1) * real_of_int (n_prev radii ir)
                   else sum)
        in averages[ir := sum / real_of_int (divisor_3d radii ir)])"

definition average_features_3d_is ::
  "int list \<Rightarrow> int \<Rightarrow> int \<Rightarrow> int \<Rightarrow> int \<Rightarrow> array4 \<Rightarrow> real list \<Rightarrow> real list" where
  "average_features_3d_is radii x y z c integral averages =
     fold (average_features_3d_is_body radii x y z c integral) [0..<length radii] averages"

subsection \<open>The lookups\<close>

text \<open>
  The indices at which one iteration reads the integral array, in the order of the
  lookups of lines 39 to 42 (88 to 96), and the indices that the whole loop reads: an
  iteration that takes the border branch reads nothing.
\<close>

definition corner_reads :: "int \<Rightarrow> int \<Rightarrow> int \<Rightarrow> int \<Rightarrow> (int \<times> int \<times> int) list" where
  "corner_reads r x y c =
     (if x = r \<or> y = r then [] else [(x - r - 1, y - r - 1, c)])
     @ (if y = r then [] else [(x + r, y - r - 1, c)])
     @ (if x = r then [] else [(x - r - 1, y + r, c)])
     @ [(x + r, y + r, c)]"

definition corner_reads_3d ::
  "int \<Rightarrow> int \<Rightarrow> int \<Rightarrow> int \<Rightarrow> int \<Rightarrow> (int \<times> int \<times> int \<times> int) list" where
  "corner_reads_3d r x y z c =
     (if x = r \<or> y = r \<or> z = r then [] else [(x - r - 1, y - r - 1, z - r - 1, c)])
     @ (if y = r \<or> z = r then [] else [(x + r, y - r - 1, z - r - 1, c)])
     @ (if x = r \<or> z = r then [] else [(x - r - 1, y + r, z - r - 1, c)])
     @ (if z = r then [] else [(x + r, y + r, z - r - 1, c)])
     @ (if x = r \<or> y = r then [] else [(x - r - 1, y - r - 1, z + r, c)])
     @ (if y = r then [] else [(x + r, y - r - 1, z + r, c)])
     @ (if x = r then [] else [(x - r - 1, y + r, z + r, c)])
     @ [(x + r, y + r, z + r, c)]"

definition average_features_reads ::
  "int list \<Rightarrow> int \<Rightarrow> int \<Rightarrow> int \<Rightarrow> array3 \<Rightarrow> (int \<times> int \<times> int) list" where
  "average_features_reads radii x y c integral =
     concat (map (\<lambda>ir. if out_of_border (radii ! ir) x y integral then []
                        else corner_reads (radii ! ir) x y c)
               [0..<length radii])"

definition average_features_3d_is_reads ::
  "int list \<Rightarrow> int \<Rightarrow> int \<Rightarrow> int \<Rightarrow> int \<Rightarrow> array4 \<Rightarrow> (int \<times> int \<times> int \<times> int) list" where
  "average_features_3d_is_reads radii x y z c integral =
     concat (map (\<lambda>ir. if out_of_border_3d (radii ! ir) x y z integral then []
                        else corner_reads_3d (radii ! ir) x y z c)
               [0..<length radii])"

subsection \<open>Integral images and volumes\<close>

text \<open>
  Modelled from the spec: \<^verbatim>\<open>integralImage\<close>, \<^verbatim>\<open>integralImage2\<close>, \<^verbatim>\<open>integralVolume\<close>
  and \<^verbatim>\<open>integralVolume2\<close> are defined in \<^verbatim>\<open>integralImage.hxx\<close>, which is not part of
  the sources at hand. The spec (4.1) gives their contract: the result has the shape of
  the input, and its element at \<open>(p, c)\<close> is the sum of the input's elements (of their
  squares, for the variants named 2) at all \<open>(q, c)\<close> with \<open>q \<le> p\<close> componentwise.
\<close>

definition prefix_sum1 :: "(int \<Rightarrow> real) \<Rightarrow> int \<Rightarrow> real" where
  "prefix_sum1 f x = (\<Sum>i\<leftarrow>[0..x]. f i)"

definition prefix_sum2 :: "(int \<Rightarrow> int \<Rightarrow> real) \<Rightarrow> int \<Rightarrow> int \<Rightarrow> real" where
  "prefix_sum2 f x y = prefix_sum1 (\<lambda>i. prefix_sum1 (\<lambda>j. f i j) y) x"

definition prefix_sum3 :: "(int \<Rightarrow> int \<Rightarrow> int \<Rightarrow> real) \<Rightarrow> int \<Rightarrow> int \<Rightarrow> int \<Rightarrow> real" where
  "prefix_sum3 f x y z = prefix_sum1 (\<lambda>i. prefix_sum2 (\<lambda>j m. f i j m) y z) x"

definition integralImage :: "array3 \<Rightarrow> array3" where
  "integralImage predictions =
     predictions\<lparr>at3 := \<lambda>x y c. prefix_sum2 (\<lambda>i j. at3 predictions i j c) x y\<rparr>"

definition integralImage2 :: "array3 \<Rightarrow> array3" where
  "integralImage2 predictions =
     predictions\<lparr>at3 := \<lambda>x y c.
        prefix_sum2 (\<lambda>i j. at3 predictions i j c * at3 predictions i j c) x y\<rparr>"

definition integralVolume :: "array4 \<Rightarrow> array4" where
  "integralVolume predictions =
     predictions\<lparr>at4 := \<lambda>x y z c. prefix_sum3 (\<lambda>i j m. at4 predictions i j m c) x y z\<rparr>"

definition integralVolume2 :: "array4 \<Rightarrow> array4" where
  "integralVolume2 predictions =
     predictions\<lparr>at4 := \<lambda>x y z c.
        prefix_sum3 (\<lambda>i j m. at4 predictions i j m c * at4 predictions i j m c) x y z\<rparr>"

text \<open>
  The sum of the field over the closed box of radius \<open>r\<close> around a centre, cell by cell:
  what the corner lookups are compared with.
\<close>

definition brute_box_sum :: "array3 \<Rightarrow> int \<Rightarrow> int \<Rightarrow> int \<Rightarrow> int \<Rightarrow> real" where
  "brute_box_sum field r x y c =
     (\<Sum>i\<leftarrow>[x - r..x + r]. \<Sum>j\<leftarrow>[y - r..y + r]. at3 field i j c)"

definition brute_box_sum_3d :: "array4 \<Rightarrow> int \<Rightarrow> int \<Rightarrow> int \<Rightarrow> int \<Rightarrow> int \<Rightarrow> real" where
  "brute_box_sum_3d field r x y z c =
     (\<Sum>i\<leftarrow>[x - r..x + r]. \<Sum>j\<leftarrow>[y - r..y + r]. \<Sum>m\<leftarrow>[z - r..z + r]. at4 field i j m c)"

text \<open>
  An array \<open>integral\<close> is the exact prefix sum of \<open>field\<close> when it has the prefix sums
  at all the indices inside its shape, in every channel.
\<close>

definition exact_integral :: "array3 \<Rightarrow> array3 \<Rightarrow> bool" where
  "exact_integral integral field \<longleftrightarrow>
     (\<forall>x y c. 0 \<le> x \<and> x < sh0 integral \<and> 0 \<le> y \<and> y < sh1 integral
            \<and> 0 \<le> c \<and> c < sh2 integral \<longrightarrow>
        at3 integral x y c = prefix_sum2 (\<lambda>i j. at3 field i j c) x y)"

definition exact_integral_3d :: "array4 \<Rightarrow> array4 \<Rightarrow> bool" where
  "exact_integral_3d integral field \<longleftrightarrow>
     (\<forall>x y z c. 0 \<le> x \<and> x < vsh0 integral \<and> 0 \<le> y \<and> y < vsh1 integral
              \<and> 0 \<le> z \<and> z < vsh2 integral \<and> 0 \<le> c \<and> c < vsh3 integral \<longrightarrow>
        at4 integral x y z c = prefix_sum3 (\<lambda>i j m. at4 field i j m c) x y z)"

subsection \<open>The drivers\<close>

text \<open>The body of the loops over \<^verbatim>\<open>c\<close>, \<^verbatim>\<open>x\<close> and \<^verbatim>\<open>y\<close>, lines 146 to 151.\<close>

definition avContext2Dmulti_body ::
  "int list \<Rightarrow> array3 \<Rightarrow> int \<Rightarrow> int \<Rightarrow> int \<Rightarrow> array3 \<Rightarrow> array3" where
  "avContext2Dmulti_body sizes integral c x y res =
     (let nnewfeatures = length sizes;
          newf = average_features sizes x y c integral (replicate nnewfeatures 0)
      in fold (\<lambda>ii res. set3 res x y (c * int nnewfeatures + int ii) (newf ! ii))
           [0..<nnewfeatures] res)"

definition avContext2Dmulti :: "int list \<Rightarrow> array3 \<Rightarrow> array3 \<Rightarrow> array3" where
  "avContext2Dmulti sizes predictions res =
     (let nx = sh0 predictions; ny = sh1 predictions; nclasses = sh2 predictions;
          integral = integralImage predictions
      in fold (\<lambda>c. fold (\<lambda>x. fold (\<lambda>y. avContext2Dmulti_body sizes integral c x y)
                                 [0..ny - 1])
                        [0..nx - 1])
           [0..nclasses - 1] res)"

text \<open>Lines 182 to 194.\<close>

definition varContext2Dmulti_body ::
  "int list \<Rightarrow> array3 \<Rightarrow> array3 \<Rightarrow> int \<Rightarrow> int \<Rightarrow> int \<Rightarrow> array3 \<Rightarrow> array3" where
  "varContext2Dmulti_body sizes integral integral2 c x y res =
     (let nnewfeatures = length sizes;
          newf = average_features sizes x y c integral (replicate nnewfeatures 0);
          newf2 = average_features sizes x y c integral2 (replicate nnewfeatures 0);
          res = fold (\<lambda>ii res. set3 res x y (c * 2 * int nnewfeatures + int ii) (newf ! ii))
                  [0..<nnewfeatures] res
      in fold (\<lambda>ii res. set3 res x y (c * 2 * int nnewfeatures + int nnewfeatures + int ii)
                           (newf2 ! ii - newf ! ii * newf ! ii))
           [0..<nnewfeatures] res)"

definition varContext2Dmulti :: "int list \<Rightarrow> array3 \<Rightarrow> array3 \<Rightarrow> array3" where
  "varContext2Dmulti sizes predictions res =
     (let nx = sh0 predictions; ny = sh1 predictions; nclasses = sh2 predictions;
          integral = integralImage predictions;
          integral2 = integralImage2 predictions
      in fold (\<lambda>c. fold (\<lambda>x. fold (\<lambda>y. varContext2Dmulti_body sizes integral integral2 c x y)
                                 [0..ny - 1])
                        [0..nx - 1])
           [0..nclasses - 1] res)"

text \<open>Lines 222 to 236.\<close>

definition varContext3Dmulti_body ::
  "int list \<Rightarrow> array4 \<Rightarrow> array4 \<Rightarrow> int \<Rightarrow> int \<Rightarrow> int \<Rightarrow> int \<Rightarrow> array4 \<Rightarrow> array4" where
  "varContext3Dmulti_body sizes integral integral2 c x y z res =
     (let nnewfeatures = length sizes;
          newf = average_features_3d_is sizes x y z c integral (replicate nnewfeatures 0);
          newf2 = average_features_3d_is sizes x y z c integral2 (replicate nnewfeatures 0);
          res = fold (\<lambda>ii res. set4 res x y z (c * 2 * int nnewfeatures + int ii) (newf ! ii))
                  [0..<nnewfeatures] res
      in fold (\<lambda>ii res. set4 res x y z (c * 2 * int nnewfeatures + int nnewfeatures + int ii)
                           (newf2 ! ii - newf ! ii * newf ! ii))
           [0..<nnewfeatures] res)"

definition varContext3Dmulti :: "int list \<Rightarrow> array4 \<Rightarrow> array4 \<Rightarrow> array4" where
  "varContext3Dmulti sizes predictions res =
     (let nx = vsh0 predictions; ny = vsh1 predictions; nz = vsh2 predictions;
          nclasses = vsh3 predictions;
          integral = integralVolume predictions;
          integral2 = integralVolume2 predictions
      in fold (\<lambda>c. fold (\<lambda>x. fold (\<lambda>y. fold (\<lambda>z.
                  varContext3Dmulti_body sizes integral integral2 c x y z)
                                          [0..nz - 1])
                                 [0..ny - 1])
                        [0..nx - 1])
           [0..nclasses - 1] res)"

text \<open>
  The value that \<^verbatim>\<open>varContext2Dmulti\<close> (\<^verbatim>\<open>varContext3Dmulti\<close>) assigns to the output
  channel \<open>k\<close> of a location, read off the two assignment loops of lines 187 to 194 (227
  to 236): the channels of the input channel \<open>c\<close> are \<open>c*2*n\<close> to \<open>c*2*n + 2*n - 1\<close>, the
  first \<open>n\<close> of them hold \<^verbatim>\<open>newf\<close> and the other \<open>n\<close> hold
  \<^verbatim>\<open>newf2[ii] - newf[ii]*newf[ii]\<close>.
\<close>

definition var_feature :: "int list \<Rightarrow> array3 \<Rightarrow> array3 \<Rightarrow> int \<Rightarrow> int \<Rightarrow> int \<Rightarrow> real" where
  "var_feature sizes integral integral2 x y k =
     (let n = length sizes;
          c = k div (2 * int n);
          j = nat (k mod (2 * int n));
          newf = average_features sizes x y c integral (replicate n 0);
          newf2 = average_features sizes x y c integral2 (replicate n 0)
      in if j < n then newf ! j else newf2 ! (j - n) - newf ! (j - n) * newf ! (j - n))"

definition var_feature_3d ::
  "int list \<Rightarrow> array4 \<Rightarrow> array4 \<Rightarrow> int \<Rightarrow> int \<Rightarrow> int \<Rightarrow> int \<Rightarrow> real" where
  "var_feature_3d sizes integral integral2 x y z k =
     (let n = length sizes;
          c = k div (2 * int n);
          j = nat (k mod (2 * int n));
          newf = average_features_3d_is sizes x y z c integral (replicate n 0);
          newf2 = average_features_3d_is sizes x y z c integral2 (replicate n 0)
      in if j < n then newf ! j else newf2 ! (j - n) - newf ! (j - n) * newf ! (j - n))"

subsection \<open>Calls through references\<close>

text \<open>
  The drivers take their three arrays by reference. A heap maps references to arrays, one
  map for each element type, so that two arguments of the same type may name the same
  array. The drivers are written again on the heap, statement by statement: the shape and
  the integral arrays are taken from \<^verbatim>\<open>predictions\<close> before the loops, every call of
  \<^verbatim>\<open>average_features\<close> reads \<^verbatim>\<open>sizes\<close> from the heap as it is then, and every
  assignment \<^verbatim>\<open>res(x, y, k) = v\<close> changes the array that \<^verbatim>\<open>res\<close> refers to.
\<close>

type_synonym ref = nat

record heap =
  ind_arrays :: "ref \<Rightarrow> int list"
  arrays3 :: "ref \<Rightarrow> array3"
  arrays4 :: "ref \<Rightarrow> array4"

definition heap_set3 :: "heap \<Rightarrow> ref \<Rightarrow> int \<Rightarrow> int \<Rightarrow> int \<Rightarrow> real \<Rightarrow> heap" where
  "heap_set3 h a x y k v = h\<lparr>arrays3 := (arrays3 h)(a := set3 (arrays3 h a) x y k v)\<rparr>"

definition heap_set4 :: "heap \<Rightarrow> ref \<Rightarrow> int \<Rightarrow> int \<Rightarrow> int \<Rightarrow> int \<Rightarrow> real \<Rightarrow> heap" where
  "heap_set4 h a x y z k v = h\<lparr>arrays4 := (arrays4 h)(a := set4 (arrays4 h a) x y z k v)\<rparr>"

definition avContext2Dmulti_ref_body ::
  "ref \<Rightarrow> ref \<Rightarrow> array3 \<Rightarrow> nat \<Rightarrow> int \<Rightarrow> int \<Rightarrow> int \<Rightarrow> heap \<Rightarrow> heap" where
  "avContext2Dmulti_ref_body sizes res integral nnewfeatures c x y h =
     (let newf = average_features (ind_arrays h sizes) x y c integral (replicate nnewfeatures 0)
      in fold (\<lambda>ii h. heap_set3 h res x y (c * int nnewfeatures + int ii) (newf ! ii))
           [0..<nnewfeatures] h)"

definition avContext2Dmulti_ref :: "ref \<Rightarrow> ref \<Rightarrow> ref \<Rightarrow> heap \<Rightarrow> heap" where
  "avContext2Dmulti_ref sizes predictions res h =
     (let nx = sh0 (arrays3 h predictions); ny = sh1 (arrays3 h predictions);
          nclasses = sh2 (arrays3 h predictions);
          nnewfeatures = length (ind_arrays h sizes);
          integral = integralImage (arrays3 h predictions)
      in fold (\<lambda>c. fold (\<lambda>x. fold (\<lambda>y.
                  avContext2Dmulti_ref_body sizes res integral nnewfeatures c x y)
                                 [0..ny - 1])
                        [0..nx - 1])
           [0..nclasses - 1] h)"

definition varContext2Dmulti_ref_body ::
  "ref \<Rightarrow> ref \<Rightarrow> array3 \<Rightarrow> array3 \<Rightarrow> nat \<Rightarrow> int \<Rightarrow> int \<Rightarrow> int \<Rightarrow> heap \<Rightarrow> heap" where
  "varContext2Dmulti_ref_body sizes res integral integral2 nnewfeatures c x y h =
     (let newf = average_features (ind_arrays h sizes) x y c integral (replicate nnewfeatures 0);
          newf2 = average_features (ind_arrays h sizes) x y c integral2
                    (replicate nnewfeatures 0);
          h = fold (\<lambda>ii h. heap_set3 h res x y (c * 2 * int nnewfeatures + int ii) (newf ! ii))
                [0..<nnewfeatures] h
      in fold (\<lambda>ii h. heap_set3 h res x y (c * 2 * int nnewfeatures + int nnewfeatures + int ii)
                         (newf2 ! ii - newf ! ii * newf ! ii))
           [0..<nnewfeatures] h)"

definition varContext2Dmulti_ref :: "ref \<Rightarrow> ref \<Rightarrow> ref \<Rightarrow> heap \<Rightarrow> heap" where
  "varContext2Dmulti_ref sizes predictions res h =
     (let nx = sh0 (arrays3 h predictions); ny = sh1 (arrays3 h predictions);
          nclasses = sh2 (arrays3 h predictions);
          nnewfeatures = length (ind_arrays h sizes);
          integral = integralImage (arrays3 h predictions);
          integral2 = integralImage2 (arrays3 h predictions)
      in fold (\<lambda>c. fold (\<lambda>x. fold (\<lambda>y.
                  varContext2Dmulti_ref_body sizes res integral integral2 nnewfeatures c x y)
                                 [0..ny - 1])
                        [0..nx - 1])
           [0..nclasses - 1] h)"

definition varContext3Dmulti_ref_body ::
  "ref \<Rightarrow> ref \<Rightarrow> array4 \<Rightarrow> array4 \<Rightarrow> nat \<Rightarrow> int \<Rightarrow> int \<Rightarrow> int \<Rightarrow> int \<Rightarrow> heap \<Rightarrow> heap" where
  "varContext3Dmulti_ref_body sizes res integral integral2 nnewfeatures c x y z h =
     (let newf = average_features_3d_is (ind_arrays h sizes) x y z c integral
                   (replicate nnewfeatures 0);
          newf2 = average_features_3d_is (ind_arrays h sizes) x y z c integral2
                    (replicate nnewfeatures 0);
          h = fold (\<lambda>ii h. heap_set4 h res x y z (c * 2 * int nnewfeatures + int ii) (newf ! ii))
                [0..<nnewfeatures] h
      in fold (\<lambda>ii h. heap_set4 h res x y z
                         (c * 2 * int nnewfeatures + int nnewfeatures + int ii)
                         (newf2 ! ii - newf ! ii * newf ! ii))
           [0..<nnewfeatures] h)"

definition varContext3Dmulti_ref :: "ref \<Rightarrow> ref \<Rightarrow> ref \<Rightarrow> heap \<Rightarrow> heap" where
  "varContext3Dmulti_ref sizes predictions res h =
     (let nx = vsh0 (arrays4 h predictions); ny = vsh1 (arrays4 h predictions);
          nz = vsh2 (arrays4 h predictions); nclasses = vsh3 (arrays4 h predictions);
          nnewfeatures = length (ind_arrays h sizes);
          integral = integralVolume (arrays4 h predictions);
          integral2 = integralVolume2 (arrays4 h predictions)
      in fold (\<lambda>c. fold (\<lambda>x. fold (\<lambda>y. fold (\<lambda>z.
                  varContext3Dmulti_ref_body sizes res integral integral2 nnewfeatures c x y z)
                                          [0..nz - 1])
                                 [0..ny - 1])
                        [0..nx - 1])
           [0..nclasses - 1] h)"

subsection \<open>Example inputs\<close>

text \<open>A 3 by 3 image and a 3 by 3 by 3 volume with one channel and distinct values.\<close>

definition ramp_field :: array3 where
  "ramp_field = \<lparr>sh0 = 3, sh1 = 3, sh2 = 1, at3 = \<lambda>x y c. real_of_int (x + 3 * y)\<rparr>"

definition ramp_volume :: array4 where
  "ramp_volume =
     \<lparr>vsh0 = 3, vsh1 = 3, vsh2 = 3, vsh3 = 1, at4 = \<lambda>x y z c. real_of_int (x + 3 * y + 9 * z)\<rparr>"

text \<open>A 5 by 5 image with one channel: 1 at the centre (2, 2) and 0 elsewhere.\<close>

definition spot_field :: array3 where
  "spot_field = \<lparr>sh0 = 5, sh1 = 5, sh2 = 1, at3 = \<lambda>x y c. if x = 2 \<and> y = 2 then 1 else 0\<rparr>"

text \<open>A 5 by 5 by 5 volume with one channel: 1 at the centre (2, 2, 2) and 0 elsewhere.\<close>

definition spot_volume :: array4 where
  "spot_volume =
     \<lparr>vsh0 = 5, vsh1 = 5, vsh2 = 5, vsh3 = 1,
      at4 = \<lambda>x y z c. if x = 2 \<and> y = 2 \<and> z = 2 then 1 else 0\<rparr>"

text \<open>A 5 by 5 image with one channel: 1 on the eight cells around the centre, 0 elsewhere.\<close>

definition ring_field :: array3 where
  "ring_field =
     \<lparr>sh0 = 5, sh1 = 5, sh2 = 1,
      at3 = \<lambda>x y c. if max \<bar>x - 2\<bar> \<bar>y - 2\<bar> = 1 then 1 else 0\<rparr>"

text \<open>
  A 5 by 5 by 5 volume with one channel: 1 on the 26 cells around the centre, 0 elsewhere.
\<close>

definition shell_volume :: array4 where
  "shell_volume =
     \<lparr>vsh0 = 5, vsh1 = 5, vsh2 = 5, vsh3 = 1,
      at4 = \<lambda>x y z c. if max (max \<bar>x - 2\<bar> \<bar>y - 2\<bar>) \<bar>z - 2\<bar> = 1 then 1 else 0\<rparr>"

text \<open>Constant fields with two channels, and output arrays filled with zeros.\<close>

definition const_field :: "real \<Rightarrow> array3" where
  "const_field k = \<lparr>sh0 = 3, sh1 = 3, sh2 = 2, at3 = \<lambda>x y c. k\<rparr>"

definition const_volume :: "real \<Rightarrow> array4" where
  "const_volume k = \<lparr>vsh0 = 3, vsh1 = 3, vsh2 = 3, vsh3 = 2, at4 = \<lambda>x y z c. k\<rparr>"

text \<open>A 46341 by 46341 image with one channel that is 1 everywhere.\<close>

definition large_const_field :: array3 where
  "large_const_field = \<lparr>sh0 = 46341, sh1 = 46341, sh2 = 1, at3 = \<lambda>x y c. 1\<rparr>"

definition zeros3 :: "int \<Rightarrow> int \<Rightarrow> int \<Rightarrow> array3" where
  "zeros3 nx ny nc = \<lparr>sh0 = nx, sh1 = ny, sh2 = nc, at3 = \<lambda>x y c. 0\<rparr>"

definition zeros4 :: "int \<Rightarrow> int \<Rightarrow> int \<Rightarrow> int \<Rightarrow> array4" where
  "zeros4 nx ny nz nc = \<lparr>vsh0 = nx, vsh1 = ny, vsh2 = nz, vsh3 = nc, at4 = \<lambda>x y z c. 0\<rparr>"

text \<open>
  A heap: the radii 0, 1 at reference 0 and the radius 1 at reference 3 (empty lists
  elsewhere), the ramp image and volume at reference 1, arrays of zeros elsewhere.
\<close>

definition example_heap :: heap where
  "example_heap =
     \<lparr>ind_arrays = (\<lambda>a. [])(0 := [0, 1], 3 := [1]),
      arrays3 = (\<lambda>a. zeros3 3 3 4)(1 := ramp_field),
      arrays4 = (\<lambda>a. zeros4 3 3 3 4)(1 := ramp_volume)\<rparr>"

section \<open>Properties\<close>

subsection \<open>The divisors\<close>

lemma sq_pos: "0 \<le> (r::int) \<Longrightarrow> 0 < (2 * r + 1) * (2 * r + 1)"
  by (simp add: zero_less_mult_iff)

lemma sq_mono:
  "0 \<le> (p::int) \<Longrightarrow> p < r \<Longrightarrow> (2 * p + 1) * (2 * p + 1) < (2 * r + 1) * (2 * r + 1)"
  by (rule mult_strict_mono) simp_all

lemma cube_mono:
  "0 \<le> (p::int) \<Longrightarrow> p < r \<Longrightarrow>
   (2 * p + 1) * (2 * p + 1) * (2 * p + 1) < (2 * r + 1) * (2 * r + 1) * (2 * r + 1)"
  by (rule mult_strict_mono, rule sq_mono) simp_all

lemma to_int_id [simp]: "- 2147483648 \<le> v \<Longrightarrow> v \<le> 2147483647 \<Longrightarrow> to_int v = v"
  by (simp add: to_int_def)

text \<open>
  As long as the count of the radius at hand fits an \<^verbatim>\<open>int\<close>, the divisor of a list of
  strictly increasing non-negative radii is the difference of the two counts.
\<close>

lemma divisor_exact_pos:
  assumes "sorted_wrt (<) radii" "\<forall>r\<in>set radii. 0 \<le> r" "ir < length radii"
    and "(2 * radii ! ir + 1) * (2 * radii ! ir + 1) \<le> 2147483647"
  shows "divisor radii ir
           = (2 * radii ! ir + 1) * (2 * radii ! ir + 1)
             - (if ir > 0 then (2 * radii ! (ir - 1) + 1) * (2 * radii ! (ir - 1) + 1) else 0)
         \<and> 0 < divisor radii ir"
proof -
  let ?n = "(2 * radii ! ir + 1) * (2 * radii ! ir + 1)"
  let ?p = "(2 * radii ! (ir - 1) + 1) * (2 * radii ! (ir - 1) + 1)"
  from assms have r: "0 \<le> radii ! ir" by simp
  then have n: "0 < ?n" by (rule sq_pos)
  with assms(4) have tn: "to_int ?n = ?n" by simp
  show ?thesis
  proof (cases "ir = 0")
    case True
    with tn n show ?thesis by (simp add: divisor_def)
  next
    case False
    from False assms have "radii ! (ir - 1) < radii ! ir" "0 \<le> radii ! (ir - 1)"
      by (auto intro: sorted_wrt_nth_less)
    then have p: "0 < ?p" "?p < ?n"
      using sq_pos [of "radii ! (ir - 1)"] sq_mono [of "radii ! (ir - 1)" "radii ! ir"]
      by simp_all
    with assms(4) have "to_int (?n - ?p) = ?n - ?p" by simp
    with False tn p show ?thesis by (simp add: divisor_def)
  qed
qed

lemma divisor_exact:
  assumes "sorted_wrt (<) radii" "\<forall>r\<in>set radii. 0 \<le> r" "ir < length radii"
    and "(2 * radii ! ir + 1) * (2 * radii ! ir + 1) \<le> 2147483647"
  shows "divisor radii ir
           = (2 * radii ! ir + 1) * (2 * radii ! ir + 1)
             - (if ir > 0 then (2 * radii ! (ir - 1) + 1) * (2 * radii ! (ir - 1) + 1) else 0)"
  using divisor_exact_pos [OF assms] by simp

lemma divisor_pos:
  assumes "sorted_wrt (<) radii" "\<forall>r\<in>set radii. 0 \<le> r" "ir < length radii"
    and "(2 * radii ! ir + 1) * (2 * radii ! ir + 1) \<le> 2147483647"
  shows "0 < divisor radii ir"
  using divisor_exact_pos [OF assms] by simp

lemma n_prev_exact:
  assumes "sorted_wrt (<) radii" "\<forall>r\<in>set radii. 0 \<le> r" "ir < length radii" "0 < ir"
    and "(2 * radii ! ir + 1) * (2 * radii ! ir + 1) * (2 * radii ! ir + 1) \<le> 2147483647"
  shows "n_prev radii ir
           = (2 * radii ! (ir - 1) + 1) * (2 * radii ! (ir - 1) + 1) * (2 * radii ! (ir - 1) + 1)"
    (is "_ = ?p")
proof -
  from assms have "radii ! (ir - 1) < radii ! ir" "0 \<le> radii ! (ir - 1)"
    by (auto intro: sorted_wrt_nth_less)
  then have "0 < ?p" "?p < (2 * radii ! ir + 1) * (2 * radii ! ir + 1) * (2 * radii ! ir + 1)"
    using cube_mono [of "radii ! (ir - 1)" "radii ! ir"] by (simp_all add: zero_less_mult_iff)
  with assms(5) show ?thesis by (simp add: n_prev_def)
qed

lemma divisor_3d_exact_pos:
  assumes "sorted_wrt (<) radii" "\<forall>r\<in>set radii. 0 \<le> r" "ir < length radii"
    and "(2 * radii ! ir + 1) * (2 * radii ! ir + 1) * (2 * radii ! ir + 1) \<le> 2147483647"
  shows "divisor_3d radii ir
           = (2 * radii ! ir + 1) * (2 * radii ! ir + 1) * (2 * radii ! ir + 1)
             - (if ir > 0
                then (2 * radii ! (ir - 1) + 1) * (2 * radii ! (ir - 1) + 1)
                     * (2 * radii ! (ir - 1) + 1)
                else 0)
         \<and> 0 < divisor_3d radii ir"
proof -
  let ?n = "(2 * radii ! ir + 1) * (2 * radii ! ir + 1) * (2 * radii ! ir + 1)"
  let ?p = "(2 * radii ! (ir - 1) + 1) * (2 * radii ! (ir - 1) + 1) * (2 * radii ! (ir - 1) + 1)"
  from assms have r: "0 \<le> radii ! ir" by simp
  then have n: "0 < ?n" by (simp add: zero_less_mult_iff)
  with assms(4) have tn: "to_int ?n = ?n" by simp
  show ?thesis
  proof (cases "ir = 0")
    case True
    with tn n show ?thesis by (simp add: divisor_3d_def)
  next
    case False
    then have ir: "0 < ir" by simp
    from False assms have "radii ! (ir - 1) < radii ! ir" "0 \<le> radii ! (ir - 1)"
      by (auto intro: sorted_wrt_nth_less)
    then have p: "0 < ?p" "?p < ?n"
      using cube_mono [of "radii ! (ir - 1)" "radii ! ir"] by (simp_all add: zero_less_mult_iff)
    with assms(4) have "to_int (?n - ?p) = ?n - ?p" by simp
    with False tn p n_prev_exact [OF assms(1-3) ir assms(4)] show ?thesis
      by (simp add: divisor_3d_def)
  qed
qed

lemma divisor_3d_exact:
  assumes "sorted_wrt (<) radii" "\<forall>r\<in>set radii. 0 \<le> r" "ir < length radii"
    and "(2 * radii ! ir + 1) * (2 * radii ! ir + 1) * (2 * radii ! ir + 1) \<le> 2147483647"
  shows "divisor_3d radii ir
           = (2 * radii ! ir + 1) * (2 * radii ! ir + 1) * (2 * radii ! ir + 1)
             - (if ir > 0
                then (2 * radii ! (ir - 1) + 1) * (2 * radii ! (ir - 1) + 1)
                     * (2 * radii ! (ir - 1) + 1)
                else 0)"
  using divisor_3d_exact_pos [OF assms] by simp

lemma divisor_3d_pos:
  assumes "sorted_wrt (<) radii" "\<forall>r\<in>set radii. 0 \<le> r" "ir < length radii"
    and "(2 * radii ! ir + 1) * (2 * radii ! ir + 1) * (2 * radii ! ir + 1) \<le> 2147483647"
  shows "0 < divisor_3d radii ir"
  using divisor_3d_exact_pos [OF assms] by simp

text \<open>The same for two consecutive radii in any order whose counts fit an \<^verbatim>\<open>int\<close>.\<close>

lemma divisor_first:
  assumes "0 \<le> radii ! 0" "(2 * radii ! 0 + 1) * (2 * radii ! 0 + 1) \<le> 2147483647"
  shows "divisor radii 0 = (2 * radii ! 0 + 1) * (2 * radii ! 0 + 1)"
proof -
  have "0 < (2 * radii ! 0 + 1) * (2 * radii ! 0 + 1)" using assms(1) by (rule sq_pos)
  with assms(2) have "to_int ((2 * radii ! 0 + 1) * (2 * radii ! 0 + 1))
                        = (2 * radii ! 0 + 1) * (2 * radii ! 0 + 1)"
    by simp
  then show ?thesis by (simp add: divisor_def)
qed

lemma divisor_pair:
  assumes "0 < i" "0 \<le> radii ! (i - 1)" "0 \<le> radii ! i"
    and "(2 * radii ! (i - 1) + 1) * (2 * radii ! (i - 1) + 1) \<le> 2147483647"
    and "(2 * radii ! i + 1) * (2 * radii ! i + 1) \<le> 2147483647"
  shows "divisor radii i
           = (2 * radii ! i + 1) * (2 * radii ! i + 1)
             - (2 * radii ! (i - 1) + 1) * (2 * radii ! (i - 1) + 1)"
proof -
  let ?n = "(2 * radii ! i + 1) * (2 * radii ! i + 1)"
  let ?p = "(2 * radii ! (i - 1) + 1) * (2 * radii ! (i - 1) + 1)"
  have "0 < ?n" "0 < ?p" using assms(2,3) by (simp_all add: sq_pos)
  with assms(4,5) have "to_int ?n = ?n" "to_int (?n - ?p) = ?n - ?p" by simp_all
  with assms(1) show ?thesis by (simp add: divisor_def)
qed

lemma divisor_3d_pair:
  assumes "0 < i" "0 \<le> radii ! (i - 1)" "0 \<le> radii ! i"
    and "(2 * radii ! (i - 1) + 1) * (2 * radii ! (i - 1) + 1) * (2 * radii ! (i - 1) + 1)
           \<le> 2147483647"
    and "(2 * radii ! i + 1) * (2 * radii ! i + 1) * (2 * radii ! i + 1) \<le> 2147483647"
  shows "divisor_3d radii i
           = (2 * radii ! i + 1) * (2 * radii ! i + 1) * (2 * radii ! i + 1)
             - (2 * radii ! (i - 1) + 1) * (2 * radii ! (i - 1) + 1) * (2 * radii ! (i - 1) + 1)"
    and "n_prev radii i
           = (2 * radii ! (i - 1) + 1) * (2 * radii ! (i - 1) + 1) * (2 * radii ! (i - 1) + 1)"
proof -
  let ?n = "(2 * radii ! i + 1) * (2 * radii ! i + 1) * (2 * radii ! i + 1)"
  let ?p = "(2 * radii ! (i - 1) + 1) * (2 * radii ! (i - 1) + 1) * (2 * radii ! (i - 1) + 1)"
  have "0 < ?n" "0 < ?p" using assms(2,3) by (simp_all add: zero_less_mult_iff)
  with assms(4,5) have t: "to_int ?n = ?n" "to_int ?p = ?p" "to_int (?n - ?p) = ?n - ?p"
    by simp_all
  from t show np: "n_prev radii i = ?p" by (simp add: n_prev_def)
  from t assms(1) show "divisor_3d radii i = ?n - ?p" by (simp add: divisor_3d_def np)
qed

text \<open>
  The count of a box inside the array is at most the number of cells of one channel.
\<close>

lemma in_border_count_le_cells:
  assumes "\<not> out_of_border r x y a" "0 \<le> r"
  shows "(2 * r + 1) * (2 * r + 1) \<le> sh0 a * sh1 a"
proof -
  from assms have "2 * r + 1 \<le> sh0 a" "2 * r + 1 \<le> sh1 a"
    by (auto simp: out_of_border_def)
  with assms(2) show ?thesis by (intro mult_mono) simp_all
qed

lemma in_border_count_le_cells_3d:
  assumes "\<not> out_of_border_3d r x y z a" "0 \<le> r"
  shows "(2 * r + 1) * (2 * r + 1) * (2 * r + 1) \<le> vsh0 a * vsh1 a * vsh2 a"
proof -
  from assms have "2 * r + 1 \<le> vsh0 a" "2 * r + 1 \<le> vsh1 a" "2 * r + 1 \<le> vsh2 a"
    by (auto simp: out_of_border_3d_def)
  with assms(2) show ?thesis by (intro mult_mono) simp_all
qed




subsection \<open>Prefix sums and box sums\<close>

lemma sum_list_upto_diff:
  assumes "0 \<le> a" "a \<le> b + 1"
  shows "(\<Sum>i\<leftarrow>[a..b]. g i) = prefix_sum1 g b - prefix_sum1 g (a - 1)"
proof (cases "a \<le> b")
  case True
  with assms have "[0..b] = [0..a - 1] @ [a..b]" by (intro upto_split1) auto
  then show ?thesis by (simp add: prefix_sum1_def)
next
  case False
  with assms have "a = b + 1" by simp
  then show ?thesis by (simp add: prefix_sum1_def)
qed

lemma prefix_sum1_diff:
  "prefix_sum1 (\<lambda>i. f i - g i) n = prefix_sum1 f n - prefix_sum1 g n"
  by (simp add: prefix_sum1_def sum_list_subtractf)

lemma prefix_sum1_add:
  "prefix_sum1 (\<lambda>i. f i + g i) n = prefix_sum1 f n + prefix_sum1 g n"
  by (simp add: prefix_sum1_def sum_list_addf)

lemma prefix_sum1_neg [simp]: "prefix_sum1 f (- 1) = 0"
  by (simp add: prefix_sum1_def)

lemma prefix_sum1_zero [simp]: "prefix_sum1 (\<lambda>i. 0) n = 0"
  by (simp add: prefix_sum1_def)

lemma prefix_sum2_neg [simp]: "prefix_sum2 f (- 1) y = 0" "prefix_sum2 f x (- 1) = 0"
  by (simp_all add: prefix_sum2_def)

lemma prefix_sum3_neg [simp]:
  "prefix_sum3 f (- 1) y z = 0" "prefix_sum3 f x (- 1) z = 0" "prefix_sum3 f x y (- 1) = 0"
  by (simp_all add: prefix_sum3_def)

lemma box2_prefix:
  assumes "0 \<le> a" "a \<le> b + 1" "0 \<le> c" "c \<le> d + 1"
  shows "(\<Sum>i\<leftarrow>[a..b]. \<Sum>j\<leftarrow>[c..d]. f i j) =
     prefix_sum2 f b d - prefix_sum2 f b (c - 1) - prefix_sum2 f (a - 1) d
     + prefix_sum2 f (a - 1) (c - 1)"
proof -
  have "(\<Sum>i\<leftarrow>[a..b]. \<Sum>j\<leftarrow>[c..d]. f i j) =
        (\<Sum>i\<leftarrow>[a..b]. prefix_sum1 (f i) d - prefix_sum1 (f i) (c - 1))"
    using assms(3,4) by (simp add: sum_list_upto_diff)
  also have "\<dots> = prefix_sum1 (\<lambda>i. prefix_sum1 (f i) d - prefix_sum1 (f i) (c - 1)) b
                 - prefix_sum1 (\<lambda>i. prefix_sum1 (f i) d - prefix_sum1 (f i) (c - 1)) (a - 1)"
    using assms(1,2) by (rule sum_list_upto_diff)
  finally show ?thesis
    by (simp add: prefix_sum1_diff prefix_sum2_def)
qed

lemma box3_prefix:
  assumes "0 \<le> a" "a \<le> b + 1" "0 \<le> c" "c \<le> d + 1" "0 \<le> e" "e \<le> g + 1"
  shows "(\<Sum>i\<leftarrow>[a..b]. \<Sum>j\<leftarrow>[c..d]. \<Sum>m\<leftarrow>[e..g]. f i j m) =
     prefix_sum3 f b d g - prefix_sum3 f b d (e - 1) - prefix_sum3 f b (c - 1) g
     + prefix_sum3 f b (c - 1) (e - 1)
     - (prefix_sum3 f (a - 1) d g - prefix_sum3 f (a - 1) d (e - 1)
        - prefix_sum3 f (a - 1) (c - 1) g + prefix_sum3 f (a - 1) (c - 1) (e - 1))"
proof -
  let ?h = "\<lambda>i. prefix_sum2 (f i) d g - prefix_sum2 (f i) d (e - 1)
                - prefix_sum2 (f i) (c - 1) g + prefix_sum2 (f i) (c - 1) (e - 1)"
  have "(\<Sum>i\<leftarrow>[a..b]. \<Sum>j\<leftarrow>[c..d]. \<Sum>m\<leftarrow>[e..g]. f i j m) = (\<Sum>i\<leftarrow>[a..b]. ?h i)"
    using assms(3-6) by (simp add: box2_prefix)
  also have "\<dots> = prefix_sum1 ?h b - prefix_sum1 ?h (a - 1)"
    using assms(1,2) by (rule sum_list_upto_diff)
  finally show ?thesis
    by (simp add: prefix_sum1_diff prefix_sum1_add prefix_sum3_def)
qed

lemma box_sum_exact:
  assumes "exact_integral integral field" "\<not> out_of_border r x y integral" "0 \<le> r"
    and "0 \<le> c" "c < sh2 integral"
  shows "box_sum r x y c integral = brute_box_sum field r x y c"
proof -
  let ?P = "prefix_sum2 (\<lambda>i j. at3 field i j c)"
  have I: "at3 integral i j c = ?P i j"
    if "0 \<le> i" "i < sh0 integral" "0 \<le> j" "j < sh1 integral" for i j
    using assms(1,4,5) that by (simp add: exact_integral_def)
  from assms have b: "r \<le> x" "r \<le> y" "x + r < sh0 integral" "y + r < sh1 integral"
    by (auto simp: out_of_border_def)
  have "brute_box_sum field r x y c =
     ?P (x + r) (y + r) - ?P (x + r) (y - r - 1) - ?P (x - r - 1) (y + r)
     + ?P (x - r - 1) (y - r - 1)"
    unfolding brute_box_sum_def using b assms(3) by (subst box2_prefix) simp_all
  moreover have "at3 integral (x + r) (y + r) c = ?P (x + r) (y + r)"
    using b assms(3) by (intro I) simp_all
  moreover have "(if y = r then 0 else at3 integral (x + r) (y - r - 1) c)
      = ?P (x + r) (y - r - 1)"
    using b assms(3) by (simp add: I)
  moreover have "(if x = r then 0 else at3 integral (x - r - 1) (y + r) c)
      = ?P (x - r - 1) (y + r)"
    using b assms(3) by (simp add: I)
  moreover have "(if x = r \<or> y = r then 0 else at3 integral (x - r - 1) (y - r - 1) c)
      = ?P (x - r - 1) (y - r - 1)"
    using b assms(3) by (auto simp: I)
  ultimately show ?thesis by (simp add: box_sum_def Let_def)
qed

lemma box_sum_3d_exact:
  assumes "exact_integral_3d integral field" "\<not> out_of_border_3d r x y z integral" "0 \<le> r"
    and "0 \<le> c" "c < vsh3 integral"
  shows "box_sum_3d r x y z c integral = brute_box_sum_3d field r x y z c"
proof -
  let ?P = "prefix_sum3 (\<lambda>i j m. at4 field i j m c)"
  have I: "at4 integral i j m c = ?P i j m"
    if "0 \<le> i" "i < vsh0 integral" "0 \<le> j" "j < vsh1 integral" "0 \<le> m" "m < vsh2 integral"
    for i j m
    using assms(1,4,5) that by (simp add: exact_integral_3d_def)
  from assms have b: "r \<le> x" "r \<le> y" "r \<le> z"
      "x + r < vsh0 integral" "y + r < vsh1 integral" "z + r < vsh2 integral"
    by (auto simp: out_of_border_3d_def)
  have "brute_box_sum_3d field r x y z c =
     ?P (x + r) (y + r) (z + r) - ?P (x + r) (y + r) (z - r - 1)
     - ?P (x + r) (y - r - 1) (z + r) + ?P (x + r) (y - r - 1) (z - r - 1)
     - (?P (x - r - 1) (y + r) (z + r) - ?P (x - r - 1) (y + r) (z - r - 1)
        - ?P (x - r - 1) (y - r - 1) (z + r) + ?P (x - r - 1) (y - r - 1) (z - r - 1))"
    unfolding brute_box_sum_3d_def using b assms(3) by (subst box3_prefix) simp_all
  moreover have "at4 integral (x + r) (y + r) (z + r) c = ?P (x + r) (y + r) (z + r)"
    using b assms(3) by (intro I) simp_all
  moreover have "(if z = r then 0 else at4 integral (x + r) (y + r) (z - r - 1) c)
      = ?P (x + r) (y + r) (z - r - 1)"
    using b assms(3) by (simp add: I)
  moreover have "(if y = r then 0 else at4 integral (x + r) (y - r - 1) (z + r) c)
      = ?P (x + r) (y - r - 1) (z + r)"
    using b assms(3) by (simp add: I)
  moreover have "(if x = r then 0 else at4 integral (x - r - 1) (y + r) (z + r) c)
      = ?P (x - r - 1) (y + r) (z + r)"
    using b assms(3) by (simp add: I)
  moreover have "(if y = r \<or> z = r then 0 else at4 integral (x + r) (y - r - 1) (z - r - 1) c)
      = ?P (x + r) (y - r - 1) (z - r - 1)"
    using b assms(3) by (auto simp: I)
  moreover have "(if x = r \<or> z = r then 0 else at4 integral (x - r - 1) (y + r) (z - r - 1) c)
      = ?P (x - r - 1) (y + r) (z - r - 1)"
    using b assms(3) by (auto simp: I)
  moreover have "(if x = r \<or> y = r then 0 else at4 integral (x - r - 1) (y - r - 1) (z + r) c)
      = ?P (x - r - 1) (y - r - 1) (z + r)"
    using b assms(3) by (auto simp: I)
  moreover have "(if x = r \<or> y = r \<or> z = r then 0
                  else at4 integral (x - r - 1) (y - r - 1) (z - r - 1) c)
      = ?P (x - r - 1) (y - r - 1) (z - r - 1)"
    using b assms(3) by (auto simp: I)
  ultimately show ?thesis by (simp add: box_sum_3d_def Let_def)
qed

lemma integralImage_exact: "exact_integral (integralImage field) field"
  by (simp add: exact_integral_def integralImage_def)

lemma integralImage2_exact:
  "exact_integral (integralImage2 field) (field\<lparr>at3 := \<lambda>x y c. at3 field x y c * at3 field x y c\<rparr>)"
  by (simp add: exact_integral_def integralImage2_def)

lemma integralVolume_exact: "exact_integral_3d (integralVolume field) field"
  by (simp add: exact_integral_3d_def integralVolume_def)

lemma integralVolume2_exact:
  "exact_integral_3d (integralVolume2 field)
     (field\<lparr>at4 := \<lambda>x y z c. at4 field x y z c * at4 field x y z c\<rparr>)"
  by (simp add: exact_integral_3d_def integralVolume2_def)

text \<open>
  Claim C2. When the integral array holds the exact prefix sums of a field, then for
  every channel, every radius and every centre whose box lies inside the array, the
  combination of the 4 (2D) or 8 (3D) corner lookups, in which a corner counts as 0 exactly
  when one of its coordinates equals the radius, is the sum of the field over the closed
  box, cell by cell.
\<close>

theorem box_sum_is_brute_force_sum:
  fixes integral field :: array3 and vintegral vfield :: array4
  shows "(exact_integral integral field \<and> 0 \<le> c \<and> c < sh2 integral
            \<and> 0 \<le> r \<and> \<not> out_of_border r x y integral
            \<longrightarrow> box_sum r x y c integral = brute_box_sum field r x y c)
       \<and> (exact_integral_3d vintegral vfield \<and> 0 \<le> c' \<and> c' < vsh3 vintegral
            \<and> 0 \<le> r' \<and> \<not> out_of_border_3d r' x' y' z' vintegral
            \<longrightarrow> box_sum_3d r' x' y' z' c' vintegral = brute_box_sum_3d vfield r' x' y' z' c')"
  using box_sum_exact box_sum_3d_exact by blast

theorem box_sum_is_brute_force_sum_witness:
  "exact_integral (integralImage ramp_field) ramp_field
   \<and> \<not> out_of_border 1 1 1 (integralImage ramp_field)
   \<and> box_sum 1 1 1 0 (integralImage ramp_field) = brute_box_sum ramp_field 1 1 1 0
   \<and> brute_box_sum ramp_field 1 1 1 0 = 36
   \<and> exact_integral_3d (integralVolume ramp_volume) ramp_volume
   \<and> \<not> out_of_border_3d 1 1 1 1 (integralVolume ramp_volume)
   \<and> box_sum_3d 1 1 1 1 0 (integralVolume ramp_volume) = brute_box_sum_3d ramp_volume 1 1 1 1 0
   \<and> brute_box_sum_3d ramp_volume 1 1 1 1 0 = 351"
proof -
  have 1: "exact_integral (integralImage ramp_field) ramp_field"
    by (rule integralImage_exact)
  have 2: "\<not> out_of_border 1 1 1 (integralImage ramp_field)"
    by (simp add: out_of_border_def integralImage_def ramp_field_def)
  have 3: "exact_integral_3d (integralVolume ramp_volume) ramp_volume"
    by (rule integralVolume_exact)
  have 4: "\<not> out_of_border_3d 1 1 1 1 (integralVolume ramp_volume)"
    by (simp add: out_of_border_3d_def integralVolume_def ramp_volume_def)
  have 5: "brute_box_sum ramp_field 1 1 1 0 = 36"
    by (simp add: brute_box_sum_def ramp_field_def upto_rec1)
  have 6: "brute_box_sum_3d ramp_volume 1 1 1 1 0 = 351"
    by (simp add: brute_box_sum_3d_def ramp_volume_def upto_rec1)
  have 7: "sh2 (integralImage ramp_field) = 1" "vsh3 (integralVolume ramp_volume) = 1"
    by (simp_all add: integralImage_def ramp_field_def integralVolume_def ramp_volume_def)
  show ?thesis
    using box_sum_is_brute_force_sum [of "integralImage ramp_field" ramp_field 0 1 1 1
        "integralVolume ramp_volume" ramp_volume 0 1 1 1 1] 1 2 3 4 5 6 7
    by simp
qed

subsection \<open>The lookups stay inside the array\<close>

text \<open>
  The corner sum depends on the integral array through the listed indices only, and for an
  in-border box of a non-negative radius these lie inside the shape: the border test
  guards every lookup.
\<close>

lemma box_sum_reads:
  assumes "\<forall>(i, j, k)\<in>set (corner_reads r x y c). at3 integral i j k = at3 integral' i j k"
  shows "box_sum r x y c integral = box_sum r x y c integral'"
  using assms by (auto simp: box_sum_def corner_reads_def Let_def)

lemma box_sum_3d_reads:
  assumes "\<forall>(i, j, m, k)\<in>set (corner_reads_3d r x y z c).
             at4 integral i j m k = at4 integral' i j m k"
  shows "box_sum_3d r x y z c integral = box_sum_3d r x y z c integral'"
  using assms by (auto simp: box_sum_3d_def corner_reads_3d_def Let_def)

lemma corner_reads_in_range:
  assumes "\<not> out_of_border r x y integral" "0 \<le> r" "0 \<le> c" "c < sh2 integral"
    and "(i, j, k) \<in> set (corner_reads r x y c)"
  shows "0 \<le> i \<and> i < sh0 integral \<and> 0 \<le> j \<and> j < sh1 integral \<and> 0 \<le> k \<and> k < sh2 integral"
  using assms by (auto simp: corner_reads_def out_of_border_def split: if_splits)

lemma corner_reads_3d_in_range:
  assumes "\<not> out_of_border_3d r x y z integral" "0 \<le> r" "0 \<le> c" "c < vsh3 integral"
    and "(i, j, m, k) \<in> set (corner_reads_3d r x y z c)"
  shows "0 \<le> i \<and> i < vsh0 integral \<and> 0 \<le> j \<and> j < vsh1 integral
         \<and> 0 \<le> m \<and> m < vsh2 integral \<and> 0 \<le> k \<and> k < vsh3 integral"
  using assms by (auto simp: corner_reads_3d_def out_of_border_3d_def split: if_splits)

lemma average_features_reads_in_range:
  assumes "\<forall>r\<in>set radii. 0 \<le> r" "0 \<le> c" "c < sh2 integral"
    and "(i, j, k) \<in> set (average_features_reads radii x y c integral)"
  shows "0 \<le> i \<and> i < sh0 integral \<and> 0 \<le> j \<and> j < sh1 integral \<and> 0 \<le> k \<and> k < sh2 integral"
proof -
  from assms(4) obtain ir where ir: "ir < length radii"
      "\<not> out_of_border (radii ! ir) x y integral"
      "(i, j, k) \<in> set (corner_reads (radii ! ir) x y c)"
    by (auto simp: average_features_reads_def split: if_splits)
  from ir(1) assms(1) have "0 \<le> radii ! ir" by simp
  with ir assms(2,3) show ?thesis by (intro corner_reads_in_range)
qed

lemma average_features_3d_is_reads_in_range:
  assumes "\<forall>r\<in>set radii. 0 \<le> r" "0 \<le> c" "c < vsh3 integral"
    and "(i, j, m, k) \<in> set (average_features_3d_is_reads radii x y z c integral)"
  shows "0 \<le> i \<and> i < vsh0 integral \<and> 0 \<le> j \<and> j < vsh1 integral
         \<and> 0 \<le> m \<and> m < vsh2 integral \<and> 0 \<le> k \<and> k < vsh3 integral"
proof -
  from assms(4) obtain ir where ir: "ir < length radii"
      "\<not> out_of_border_3d (radii ! ir) x y z integral"
      "(i, j, m, k) \<in> set (corner_reads_3d (radii ! ir) x y z c)"
    by (auto simp: average_features_3d_is_reads_def split: if_splits)
  from ir(1) assms(1) have "0 \<le> radii ! ir" by simp
  with ir assms(2,3) show ?thesis by (intro corner_reads_3d_in_range)
qed

subsection \<open>The loop over the radii\<close>

text \<open>
  Both loops have the same shape: iteration \<open>i\<close> assigns to \<^verbatim>\<open>averages[i]\<close> a value
  that depends on the vector through \<^verbatim>\<open>averages[i-1]\<close> only.
\<close>

lemma fold_update_length:
  assumes "\<And>i av. body i av = av[i := g i (av ! (i - 1))]"
  shows "length (fold body js av) = length av"
  by (induction js arbitrary: av) (simp_all add: assms)

lemma fold_update_other:
  assumes "\<And>i av. body i av = av[i := g i (av ! (i - 1))]" and "j \<notin> set js"
  shows "fold body js av ! j = av ! j"
  using assms(2) by (induction js arbitrary: av) (auto simp: assms(1))

lemma fold_update_nth:
  fixes body :: "nat \<Rightarrow> 'a list \<Rightarrow> 'a list"
  assumes body: "\<And>i av. body i av = av[i := g i (av ! (i - 1))]"
    and "ir < n" "length av = n"
  shows "fold body [0..<n] av ! ir =
           g ir (if ir = 0 then av ! 0 else fold body [0..<n] av ! (ir - 1))"
proof -
  let ?S = "fold body [0..<ir] av"
  have split: "[0..<n] = [0..<ir] @ ir # [Suc ir..<n]"
    using upt_add_eq_append [of 0 ir "n - ir"] upt_conv_Cons [of ir n] \<open>ir < n\<close> by simp
  have fin: "fold body [0..<n] av = fold body [Suc ir..<n] (body ir ?S)"
    by (simp add: split)
  have len: "length ?S = n"
    using fold_update_length [of body g] body assms(3) by simp
  have "fold body [0..<n] av ! ir = body ir ?S ! ir"
    unfolding fin by (rule fold_update_other [of body g, OF body]) simp
  also have "\<dots> = g ir (?S ! (ir - 1))"
    using len \<open>ir < n\<close> by (simp add: body)
  finally have 1: "fold body [0..<n] av ! ir = g ir (?S ! (ir - 1))" .
  show ?thesis
  proof (cases "ir = 0")
    case True
    with 1 show ?thesis by simp
  next
    case False
    have "fold body [0..<n] av ! (ir - 1) = body ir ?S ! (ir - 1)"
      unfolding fin using False by (intro fold_update_other [of body g, OF body]) auto
    also have "\<dots> = ?S ! (ir - 1)"
      using False by (simp add: body)
    finally show ?thesis using 1 False by simp
  qed
qed

lemma average_features_body_update:
  "average_features_body radii x y c integral ir av =
     av[ir := (\<lambda>ir p. if out_of_border (radii ! ir) x y integral
                 then 1 / real_of_int (sh2 integral)
                 else (box_sum (radii ! ir) x y c integral
                       - (if ir > 0 then p * real_of_int (2 * radii ! (ir - 1) + 1)
                                          * real_of_int (2 * radii ! (ir - 1) + 1) else 0))
                      / real_of_int (divisor radii ir)) ir (av ! (ir - 1))]"
  by (simp add: average_features_body_def Let_def)

lemma average_features_3d_is_body_update:
  "average_features_3d_is_body radii x y z c integral ir av =
     av[ir := (\<lambda>ir p. if out_of_border_3d (radii ! ir) x y z integral
                 then 1 / real_of_int (vsh3 integral)
                 else (box_sum_3d (radii ! ir) x y z c integral
                       - (if ir > 0 then p * real_of_int (n_prev radii ir) else 0))
                      / real_of_int (divisor_3d radii ir)) ir (av ! (ir - 1))]"
  by (simp add: average_features_3d_is_body_def Let_def)

lemma length_average_features [simp]:
  "length (average_features radii x y c integral av) = length av"
  unfolding average_features_def
  by (rule fold_update_length [OF average_features_body_update])

lemma length_average_features_3d_is [simp]:
  "length (average_features_3d_is radii x y z c integral av) = length av"
  unfolding average_features_3d_is_def
  by (rule fold_update_length [OF average_features_3d_is_body_update])

lemma average_features_nth:
  assumes "ir < length radii" "length averages = length radii"
  shows "average_features radii x y c integral averages ! ir =
     (if out_of_border (radii ! ir) x y integral then 1 / real_of_int (sh2 integral)
      else (box_sum (radii ! ir) x y c integral
            - (if ir > 0 then average_features radii x y c integral averages ! (ir - 1)
                              * real_of_int (2 * radii ! (ir - 1) + 1)
                              * real_of_int (2 * radii ! (ir - 1) + 1) else 0))
           / real_of_int (divisor radii ir))"
  unfolding average_features_def
  by (subst fold_update_nth [OF average_features_body_update assms]) simp

lemma average_features_3d_is_nth:
  assumes "ir < length radii" "length averages = length radii"
  shows "average_features_3d_is radii x y z c integral averages ! ir =
     (if out_of_border_3d (radii ! ir) x y z integral then 1 / real_of_int (vsh3 integral)
      else (box_sum_3d (radii ! ir) x y z c integral
            - (if ir > 0 then average_features_3d_is radii x y z c integral averages ! (ir - 1)
                              * real_of_int (n_prev radii ir) else 0))
           / real_of_int (divisor_3d radii ir))"
  unfolding average_features_3d_is_def
  by (subst fold_update_nth [OF average_features_3d_is_body_update assms]) simp

subsection \<open>The previous sum\<close>

text \<open>
  Claim C5 gives the result at index \<open>i\<close>, when the radius at index \<open>i - 1\<close> is out of
  border and the radius at index \<open>i\<close> is in border, as the full box sum minus the
  placeholder times \<open>(2r\<^sub>i\<^sub>-\<^sub>1+1)^D\<close>, divided by \<open>(2r\<^sub>i+1)^D - (2r\<^sub>i\<^sub>-\<^sub>1+1)^D\<close>. The
  divisor is an \<^verbatim>\<open>int\<close>, and the radius that is out of border is not limited by the
  array: with the radii 30000, 0 at the centre of the 3 by 3 ramp image the difference of
  the counts is \<open>1 - 60001\<^sup>2 = -3600120000\<close>, which the \<^verbatim>\<open>int\<close> holds as 694847296; the
  code returns \<open>(4 - 3600120001) / 694847296\<close> and not \<open>(4 - 3600120001) / (-3600120000)\<close>.
\<close>

theorem placeholder_formula_fails_for_large_previous_radius:
  "out_of_border ([30000, 0] ! (1 - 1)) 1 1 (integralImage ramp_field)
   \<and> \<not> out_of_border ([30000, 0] ! 1) 1 1 (integralImage ramp_field)
   \<and> brute_box_sum ramp_field ([30000, 0] ! 1) 1 1 0 = 4
   \<and> divisor [30000, 0] 1 = 694847296
   \<and> average_features [30000, 0] 1 1 0 (integralImage ramp_field) [0, 0] ! 1
       = (4 - 3600120001) / 694847296
   \<and> average_features [30000, 0] 1 1 0 (integralImage ramp_field) [0, 0] ! 1
       \<noteq> (brute_box_sum ramp_field ([30000, 0] ! 1) 1 1 0
            - 1 / real_of_int (sh2 (integralImage ramp_field))
              * real_of_int ((2 * [30000, 0] ! (1 - 1) + 1) ^ 2))
           / real_of_int ((2 * [30000, 0] ! 1 + 1) ^ 2 - (2 * [30000, 0] ! (1 - 1) + 1) ^ 2)"
proof -
  have 1: "out_of_border ([30000, 0] ! (1 - 1)) 1 1 (integralImage ramp_field)"
      "\<not> out_of_border ([30000, 0] ! 1) 1 1 (integralImage ramp_field)"
    by (simp_all add: out_of_border_def integralImage_def ramp_field_def)
  have 2: "brute_box_sum ramp_field ([30000, 0] ! 1) 1 1 0 = 4"
    by (simp add: brute_box_sum_def ramp_field_def)
  have 3: "divisor [30000, 0] 1 = 694847296"
    by (simp add: divisor_def to_int_def)
  have 4: "average_features [30000, 0] 1 1 0 (integralImage ramp_field) [0, 0]
             = [1, (4 - 3600120001) / 694847296]"
    by (simp add: average_features_def average_features_body_def out_of_border_def box_sum_def
        divisor_def to_int_def integralImage_def ramp_field_def prefix_sum2_def prefix_sum1_def
        upto_rec1 upt_rec Let_def)
  have 5: "sh2 (integralImage ramp_field) = 1"
    by (simp add: integralImage_def ramp_field_def)
  show ?thesis
    using 1 unfolding 2 3 4 5 by simp
qed

text \<open>
  Claim C5, amended. Whenever the radius at index \<open>i - 1\<close> is out of border, so that
  \<^verbatim>\<open>averages[i-1]\<close> is the placeholder \<open>1/nclasses\<close>, the radius at index \<open>i\<close> is in
  border, and the counts \<open>(2r+1)^D\<close> of both radii are at most \<^verbatim>\<open>INT_MAX\<close> (2147483647),
  the result at index \<open>i\<close> is the full box sum of radius \<open>i\<close> minus the placeholder times
  the count of the previous box, divided by the difference of the two counts, which is
  not zero. The integral array holds the exact prefix sums of the field, and the full box
  sum is the sum of the field over the box, cell by cell; the radii are non-negative.
\<close>

theorem placeholder_taken_as_previous_sum:
  fixes integral field :: array3 and vintegral vfield :: array4
  shows "(exact_integral integral field \<and> 0 \<le> c \<and> c < sh2 integral
          \<and> 0 < i \<and> i < length radii \<and> length averages = length radii
          \<and> 0 \<le> radii ! (i - 1) \<and> 0 \<le> radii ! i
          \<and> (2 * radii ! (i - 1) + 1) ^ 2 \<le> 2147483647
          \<and> (2 * radii ! i + 1) ^ 2 \<le> 2147483647
          \<and> out_of_border (radii ! (i - 1)) x y integral
          \<and> \<not> out_of_border (radii ! i) x y integral
          \<longrightarrow> average_features radii x y c integral averages ! i
              = (brute_box_sum field (radii ! i) x y c
                 - 1 / real_of_int (sh2 integral) * real_of_int ((2 * radii ! (i - 1) + 1) ^ 2))
                / real_of_int ((2 * radii ! i + 1) ^ 2 - (2 * radii ! (i - 1) + 1) ^ 2)
            \<and> (2 * radii ! i + 1) ^ 2 - (2 * radii ! (i - 1) + 1) ^ 2 \<noteq> 0)
       \<and> (exact_integral_3d vintegral vfield \<and> 0 \<le> c' \<and> c' < vsh3 vintegral
          \<and> 0 < i' \<and> i' < length radii' \<and> length averages' = length radii'
          \<and> 0 \<le> radii' ! (i' - 1) \<and> 0 \<le> radii' ! i'
          \<and> (2 * radii' ! (i' - 1) + 1) ^ 3 \<le> 2147483647
          \<and> (2 * radii' ! i' + 1) ^ 3 \<le> 2147483647
          \<and> out_of_border_3d (radii' ! (i' - 1)) x' y' z' vintegral
          \<and> \<not> out_of_border_3d (radii' ! i') x' y' z' vintegral
          \<longrightarrow> average_features_3d_is radii' x' y' z' c' vintegral averages' ! i'
              = (brute_box_sum_3d vfield (radii' ! i') x' y' z' c'
                 - 1 / real_of_int (vsh3 vintegral) * real_of_int ((2 * radii' ! (i' - 1) + 1) ^ 3))
                / real_of_int ((2 * radii' ! i' + 1) ^ 3 - (2 * radii' ! (i' - 1) + 1) ^ 3)
            \<and> (2 * radii' ! i' + 1) ^ 3 - (2 * radii' ! (i' - 1) + 1) ^ 3 \<noteq> 0)"
proof (intro conjI impI)
  assume a: "exact_integral integral field \<and> 0 \<le> c \<and> c < sh2 integral
          \<and> 0 < i \<and> i < length radii \<and> length averages = length radii
          \<and> 0 \<le> radii ! (i - 1) \<and> 0 \<le> radii ! i
          \<and> (2 * radii ! (i - 1) + 1) ^ 2 \<le> 2147483647
          \<and> (2 * radii ! i + 1) ^ 2 \<le> 2147483647
          \<and> out_of_border (radii ! (i - 1)) x y integral
          \<and> \<not> out_of_border (radii ! i) x y integral"
  then have "i - 1 < length radii" by auto
  with a have p: "average_features radii x y c integral averages ! (i - 1)
                  = 1 / real_of_int (sh2 integral)"
    by (subst average_features_nth) simp_all
  from a have b: "box_sum (radii ! i) x y c integral = brute_box_sum field (radii ! i) x y c"
    by (intro box_sum_exact) simp_all
  from a have d: "divisor radii i
           = (2 * radii ! i + 1) * (2 * radii ! i + 1)
             - (2 * radii ! (i - 1) + 1) * (2 * radii ! (i - 1) + 1)"
    by (intro divisor_pair) (simp_all add: power2_eq_square)
  from a show "average_features radii x y c integral averages ! i
              = (brute_box_sum field (radii ! i) x y c
                 - 1 / real_of_int (sh2 integral) * real_of_int ((2 * radii ! (i - 1) + 1) ^ 2))
                / real_of_int ((2 * radii ! i + 1) ^ 2 - (2 * radii ! (i - 1) + 1) ^ 2)"
    using p by (subst average_features_nth) (simp_all add: b d power2_eq_square)
  from a have "radii ! i \<noteq> radii ! (i - 1)" by auto
  with a have "(2 * radii ! i + 1) ^ 2 \<noteq> (2 * radii ! (i - 1) + 1) ^ 2"
    by (subst power_eq_iff_eq_base) simp_all
  then show "(2 * radii ! i + 1) ^ 2 - (2 * radii ! (i - 1) + 1) ^ 2 \<noteq> 0" by simp
next
  assume a: "exact_integral_3d vintegral vfield \<and> 0 \<le> c' \<and> c' < vsh3 vintegral
          \<and> 0 < i' \<and> i' < length radii' \<and> length averages' = length radii'
          \<and> 0 \<le> radii' ! (i' - 1) \<and> 0 \<le> radii' ! i'
          \<and> (2 * radii' ! (i' - 1) + 1) ^ 3 \<le> 2147483647
          \<and> (2 * radii' ! i' + 1) ^ 3 \<le> 2147483647
          \<and> out_of_border_3d (radii' ! (i' - 1)) x' y' z' vintegral
          \<and> \<not> out_of_border_3d (radii' ! i') x' y' z' vintegral"
  then have "i' - 1 < length radii'" by auto
  with a have p: "average_features_3d_is radii' x' y' z' c' vintegral averages' ! (i' - 1)
                  = 1 / real_of_int (vsh3 vintegral)"
    by (subst average_features_3d_is_nth) simp_all
  from a have b: "box_sum_3d (radii' ! i') x' y' z' c' vintegral
                    = brute_box_sum_3d vfield (radii' ! i') x' y' z' c'"
    by (intro box_sum_3d_exact) simp_all
  from a have d: "divisor_3d radii' i'
           = (2 * radii' ! i' + 1) * (2 * radii' ! i' + 1) * (2 * radii' ! i' + 1)
             - (2 * radii' ! (i' - 1) + 1) * (2 * radii' ! (i' - 1) + 1)
               * (2 * radii' ! (i' - 1) + 1)"
    and np: "n_prev radii' i'
           = (2 * radii' ! (i' - 1) + 1) * (2 * radii' ! (i' - 1) + 1)
             * (2 * radii' ! (i' - 1) + 1)"
    by (intro divisor_3d_pair; simp add: power3_eq_cube)+
  from a show "average_features_3d_is radii' x' y' z' c' vintegral averages' ! i'
              = (brute_box_sum_3d vfield (radii' ! i') x' y' z' c'
                 - 1 / real_of_int (vsh3 vintegral) * real_of_int ((2 * radii' ! (i' - 1) + 1) ^ 3))
                / real_of_int ((2 * radii' ! i' + 1) ^ 3 - (2 * radii' ! (i' - 1) + 1) ^ 3)"
    using p by (subst average_features_3d_is_nth) (simp_all add: b d np power3_eq_cube)
  from a have "radii' ! i' \<noteq> radii' ! (i' - 1)" by auto
  with a have "(2 * radii' ! i' + 1) ^ 3 \<noteq> (2 * radii' ! (i' - 1) + 1) ^ 3"
    by (subst power_eq_iff_eq_base) simp_all
  then show "(2 * radii' ! i' + 1) ^ 3 - (2 * radii' ! (i' - 1) + 1) ^ 3 \<noteq> 0" by simp
qed

theorem placeholder_taken_as_previous_sum_witness:
  "out_of_border ([1, 0] ! (1 - 1)) 0 1 (integralImage ramp_field)
   \<and> \<not> out_of_border ([1, 0] ! 1) 0 1 (integralImage ramp_field)
   \<and> brute_box_sum ramp_field ([1, 0] ! 1) 0 1 0 = 3
   \<and> average_features [1, 0] 0 1 0 (integralImage ramp_field) [0, 0] ! 1 = 3 / 4
   \<and> out_of_border_3d ([1, 0] ! (1 - 1)) 0 1 0 (integralVolume ramp_volume)
   \<and> \<not> out_of_border_3d ([1, 0] ! 1) 0 1 0 (integralVolume ramp_volume)
   \<and> brute_box_sum_3d ramp_volume ([1, 0] ! 1) 0 1 0 0 = 3
   \<and> average_features_3d_is [1, 0] 0 1 0 0 (integralVolume ramp_volume) [0, 0] ! 1 = 12 / 13"
proof -
  have 1: "out_of_border ([1, 0] ! (1 - 1)) 0 1 (integralImage ramp_field)"
      "\<not> out_of_border ([1, 0] ! 1) 0 1 (integralImage ramp_field)"
    by (simp_all add: out_of_border_def integralImage_def ramp_field_def)
  have 2: "out_of_border_3d ([1, 0] ! (1 - 1)) 0 1 0 (integralVolume ramp_volume)"
      "\<not> out_of_border_3d ([1, 0] ! 1) 0 1 0 (integralVolume ramp_volume)"
    by (simp_all add: out_of_border_3d_def integralVolume_def ramp_volume_def)
  have 3: "brute_box_sum ramp_field ([1, 0] ! 1) 0 1 0 = 3"
    by (simp add: brute_box_sum_def ramp_field_def)
  have 4: "brute_box_sum_3d ramp_volume ([1, 0] ! 1) 0 1 0 0 = 3"
    by (simp add: brute_box_sum_3d_def ramp_volume_def)
  have 5: "sh2 (integralImage ramp_field) = 1" "vsh3 (integralVolume ramp_volume) = 1"
    by (simp_all add: integralImage_def ramp_field_def integralVolume_def ramp_volume_def)
  have 6: "exact_integral (integralImage ramp_field) ramp_field"
      "exact_integral_3d (integralVolume ramp_volume) ramp_volume"
    by (rule integralImage_exact, rule integralVolume_exact)
  show ?thesis
    using placeholder_taken_as_previous_sum [of "integralImage ramp_field" ramp_field 0 1
        "[1, 0]" "[0, 0]" 0 1 "integralVolume ramp_volume" ramp_volume 0 1 "[1, 0]" "[0, 0]"
        0 1 0] 1 2 3 4 5 6
    by simp
qed

subsection \<open>Annulus decomposition\<close>

text \<open>
  At the second radius the previous entry \<^verbatim>\<open>averages[0]\<close> is the mean over the full
  first box, so that \<^verbatim>\<open>sum_prev\<close> is the full sum of the first box and the decomposition
  holds, as long as the count of the second box fits an \<^verbatim>\<open>int\<close>.
\<close>

lemma annulus_decomposition_second_radius:
  assumes ex: "exact_integral integral field" and c: "0 \<le> c" "c < sh2 integral"
    and len: "1 < length radii" "length averages = length radii"
    and r: "0 \<le> radii ! 0" "radii ! 0 < radii ! 1"
    and fit: "(2 * radii ! 1 + 1) * (2 * radii ! 1 + 1) \<le> 2147483647"
    and inb: "\<not> out_of_border (radii ! 0) x y integral" "\<not> out_of_border (radii ! 1) x y integral"
  shows "average_features radii x y c integral averages ! 1 * real_of_int (divisor radii 1)
           + brute_box_sum field (radii ! 0) x y c
         = brute_box_sum field (radii ! 1) x y c"
proof -
  let ?a = "average_features radii x y c integral averages"
  have l0: "0 < length radii" using len(1) by arith
  have n0: "real_of_int (2 * radii ! 0 + 1) \<noteq> 0" using r by simp
  have fit0: "(2 * radii ! 0 + 1) * (2 * radii ! 0 + 1) \<le> 2147483647"
    using sq_mono [OF r] fit by simp
  have d0: "divisor radii 0 = (2 * radii ! 0 + 1) * (2 * radii ! 0 + 1)"
    using r(1) fit0 by (rule divisor_first)
  have d1: "divisor radii 1
              = (2 * radii ! 1 + 1) * (2 * radii ! 1 + 1) - (2 * radii ! 0 + 1) * (2 * radii ! 0 + 1)"
    using divisor_pair [of 1 radii] r fit fit0 by simp
  have "0 < divisor radii 1"
    unfolding d1 using sq_mono [OF r] by simp
  then have n1: "real_of_int (divisor radii 1) \<noteq> 0" by simp
  have a0: "?a ! 0 = brute_box_sum field (radii ! 0) x y c
                      / (real_of_int (2 * radii ! 0 + 1) * real_of_int (2 * radii ! 0 + 1))"
    using l0 len inb r
    by (subst average_features_nth) (simp_all add: d0 box_sum_exact [OF ex _ _ c])
  have a1: "?a ! 1 = (brute_box_sum field (radii ! 1) x y c
                      - ?a ! 0 * real_of_int (2 * radii ! 0 + 1) * real_of_int (2 * radii ! 0 + 1))
                     / real_of_int (divisor radii 1)"
    using len inb r by (subst average_features_nth) (simp_all add: box_sum_exact [OF ex _ _ c])
  have "?a ! 0 * real_of_int (2 * radii ! 0 + 1) * real_of_int (2 * radii ! 0 + 1)
          = brute_box_sum field (radii ! 0) x y c"
    unfolding a0 using n0 by simp
  with a1 n1 show ?thesis by simp
qed

text \<open>
  Claim C1. For consecutive in-border radii \<open>r\<^sub>i\<^sub>-\<^sub>1 < r\<^sub>i\<close> the mean returned at index \<open>i\<close>,
  times the annulus count, plus the full sum of the box of radius \<open>r\<^sub>i\<^sub>-\<^sub>1\<close> should be the
  full sum of the box of radius \<open>r\<^sub>i\<close>, also for \<open>i \<ge> 2\<close>. The code takes
  \<^verbatim>\<open>averages[i-1]\<close> times the full count of the previous box for the previous sum, and
  from the third radius on \<^verbatim>\<open>averages[i-1]\<close> is the mean over an annulus, not over the
  full box. On the 5 by 5 image (5 by 5 by 5 volume) that is 1 at its centre and 0
  elsewhere, with the radii 0, 1, 2 at the centre, all three boxes have the full sum 1 and
  the returned means are \<open>1, 0, 1/16\<close> (\<open>1, 0, 1/98\<close>): at index 2 the left-hand side of
  the decomposition is 2 and the right-hand side is 1.
\<close>

theorem annulus_decomposition_violated_at_third_radius:
  "average_features [0, 1, 2] 2 2 0 (integralImage spot_field) [0, 0, 0] = [1, 0, 1 / 16]
   \<and> \<not> out_of_border 1 2 2 (integralImage spot_field)
   \<and> \<not> out_of_border 2 2 2 (integralImage spot_field)
   \<and> divisor [0, 1, 2] 2 = 16
   \<and> brute_box_sum spot_field 1 2 2 0 = 1
   \<and> brute_box_sum spot_field 2 2 2 0 = 1
   \<and> average_features [0, 1, 2] 2 2 0 (integralImage spot_field) [0, 0, 0] ! 2
        * real_of_int (divisor [0, 1, 2] 2) + brute_box_sum spot_field 1 2 2 0
      \<noteq> brute_box_sum spot_field 2 2 2 0
   \<and> average_features_3d_is [0, 1, 2] 2 2 2 0 (integralVolume spot_volume) [0, 0, 0]
        = [1, 0, 1 / 98]
   \<and> \<not> out_of_border_3d 1 2 2 2 (integralVolume spot_volume)
   \<and> \<not> out_of_border_3d 2 2 2 2 (integralVolume spot_volume)
   \<and> divisor_3d [0, 1, 2] 2 = 98
   \<and> brute_box_sum_3d spot_volume 1 2 2 2 0 = 1
   \<and> brute_box_sum_3d spot_volume 2 2 2 2 0 = 1
   \<and> average_features_3d_is [0, 1, 2] 2 2 2 0 (integralVolume spot_volume) [0, 0, 0] ! 2
        * real_of_int (divisor_3d [0, 1, 2] 2) + brute_box_sum_3d spot_volume 1 2 2 2 0
      \<noteq> brute_box_sum_3d spot_volume 2 2 2 2 0"
proof -
  have a: "average_features [0, 1, 2] 2 2 0 (integralImage spot_field) [0, 0, 0] = [1, 0, 1 / 16]"
    by (simp add: average_features_def average_features_body_def out_of_border_def box_sum_def
        divisor_def integralImage_def spot_field_def prefix_sum2_def prefix_sum1_def
        upto_rec1 upt_rec Let_def)
  have b: "brute_box_sum spot_field 1 2 2 0 = 1" "brute_box_sum spot_field 2 2 2 0 = 1"
    by (simp_all add: brute_box_sum_def spot_field_def upto_rec1)
  have c: "\<not> out_of_border 1 2 2 (integralImage spot_field)"
      "\<not> out_of_border 2 2 2 (integralImage spot_field)" "divisor [0, 1, 2] 2 = 16"
    by (simp_all add: out_of_border_def integralImage_def spot_field_def divisor_def)
  have a3: "average_features_3d_is [0, 1, 2] 2 2 2 0 (integralVolume spot_volume) [0, 0, 0]
        = [1, 0, 1 / 98]"
    by (simp add: average_features_3d_is_def average_features_3d_is_body_def
        out_of_border_3d_def box_sum_3d_def divisor_3d_def n_prev_def integralVolume_def
        spot_volume_def prefix_sum3_def prefix_sum2_def prefix_sum1_def upto_rec1 upt_rec Let_def)
  have b3: "brute_box_sum_3d spot_volume 1 2 2 2 0 = 1" "brute_box_sum_3d spot_volume 2 2 2 2 0 = 1"
    by (simp_all add: brute_box_sum_3d_def spot_volume_def upto_rec1)
  have c3: "\<not> out_of_border_3d 1 2 2 2 (integralVolume spot_volume)"
      "\<not> out_of_border_3d 2 2 2 2 (integralVolume spot_volume)" "divisor_3d [0, 1, 2] 2 = 98"
    by (simp_all add: out_of_border_3d_def integralVolume_def spot_volume_def divisor_3d_def
        n_prev_def)
  show ?thesis
    using c c3 unfolding a b a3 b3 by simp
qed

subsection \<open>What the drivers write\<close>

text \<open>
  Every loop of a driver is a sequence of assignments whose value is determined by the
  location written. The result of such a loop is the start array, overwritten at the
  locations that some iteration writes.
\<close>

lemma at3_update_cong:
  "(\<And>x y k. f x y k = g x y k) \<Longrightarrow> s\<lparr>at3 := f\<rparr> = s\<lparr>at3 := g\<rparr>"
proof -
  assume "\<And>x y k. f x y k = g x y k"
  then have "f = g" by (intro ext)
  then show ?thesis by simp
qed

lemma fold_writes3:
  assumes "\<And>a s. step a s
              = s\<lparr>at3 := \<lambda>x y k. if hit a x y k then val x y k else at3 s x y k\<rparr>"
  shows "fold step as s
           = s\<lparr>at3 := \<lambda>x y k. if (\<exists>a\<in>set as. hit a x y k) then val x y k else at3 s x y k\<rparr>"
proof (induction as arbitrary: s)
  case Nil
  show ?case by simp
next
  case (Cons a as)
  have eq: "(\<lambda>x y k. if (\<exists>b\<in>set as. hit b x y k) then val x y k
                  else if hit a x y k then val x y k else at3 s x y k)
        = (\<lambda>x y k. if (\<exists>b\<in>set (a # as). hit b x y k) then val x y k else at3 s x y k)"
    by (intro ext) auto
  have "fold step (a # as) s = fold step as (step a s)" by simp
  also have "\<dots> = (step a s)\<lparr>at3 := \<lambda>x y k. if (\<exists>b\<in>set as. hit b x y k) then val x y k
                                          else at3 (step a s) x y k\<rparr>"
    by (rule Cons.IH)
  also have "\<dots> = s\<lparr>at3 := \<lambda>x y k. if (\<exists>b\<in>set as. hit b x y k) then val x y k
                  else if hit a x y k then val x y k else at3 s x y k\<rparr>"
    unfolding assms [of a s] by (simp cong: if_cong)
  finally show ?case unfolding eq .
qed

lemma block_div_mod:
  fixes N :: int
  assumes "c * N \<le> k" "k < c * N + N"
  shows "k div N = c" "k mod N = k - c * N"
proof -
  have N: "0 < N" using assms by simp
  have k: "k = (k - c * N) + c * N" by simp
  have "k div N = (k - c * N) div N + c"
    using N by (subst k) (simp only: div_mult_self1 [OF less_imp_neq [THEN not_sym]])
  then show "k div N = c" using assms by simp
  have "k mod N = (k - c * N) mod N"
    by (subst k) (simp only: mod_mult_self1)
  then show "k mod N = k - c * N" using assms by simp
qed

lemma write_loop3:
  "fold (\<lambda>ii res. set3 res x y (base + int ii) (v ii)) [0..<n] res
     = res\<lparr>at3 := \<lambda>x' y' k. if x' = x \<and> y' = y \<and> base \<le> k \<and> k < base + int n
                              then v (nat (k - base)) else at3 res x' y' k\<rparr>"
proof -
  have "fold (\<lambda>ii res. set3 res x y (base + int ii) (v ii)) [0..<n] res
     = res\<lparr>at3 := \<lambda>x' y' k. if (\<exists>ii\<in>set [0..<n]. x' = x \<and> y' = y \<and> k = base + int ii)
                              then v (nat (k - base)) else at3 res x' y' k\<rparr>"
    by (rule fold_writes3) (auto simp: set3_def intro!: at3_update_cong)
  moreover have "(\<exists>ii\<in>set [0..<n]. x' = x \<and> y' = y \<and> k = base + int ii)
      \<longleftrightarrow> x' = x \<and> y' = y \<and> base \<le> k \<and> k < base + int n" for x' y' k
  proof
    assume "x' = x \<and> y' = y \<and> base \<le> k \<and> k < base + int n"
    then have "nat (k - base) \<in> set [0..<n] \<and> x' = x \<and> y' = y \<and> k = base + int (nat (k - base))"
      by auto
    then show "\<exists>ii\<in>set [0..<n]. x' = x \<and> y' = y \<and> k = base + int ii" by blast
  qed auto
  ultimately show ?thesis by simp
qed

lemma avContext2Dmulti_body_writes:
  "avContext2Dmulti_body sizes integral c x y s
     = s\<lparr>at3 := \<lambda>x' y' k.
          if x' = x \<and> y' = y \<and> c * int (length sizes) \<le> k
             \<and> k < c * int (length sizes) + int (length sizes)
          then average_features sizes x' y' (k div int (length sizes)) integral
                 (replicate (length sizes) 0) ! nat (k mod int (length sizes))
          else at3 s x' y' k\<rparr>"
  unfolding avContext2Dmulti_body_def Let_def write_loop3
  by (rule at3_update_cong) (auto simp: block_div_mod)

lemma avContext2Dmulti_writes:
  "avContext2Dmulti sizes predictions res
     = res\<lparr>at3 := \<lambda>x y k.
          if 0 \<le> x \<and> x < sh0 predictions \<and> 0 \<le> y \<and> y < sh1 predictions
             \<and> (\<exists>c. 0 \<le> c \<and> c < sh2 predictions \<and> c * int (length sizes) \<le> k
                     \<and> k < c * int (length sizes) + int (length sizes))
          then average_features sizes x y (k div int (length sizes)) (integralImage predictions)
                 (replicate (length sizes) 0) ! nat (k mod int (length sizes))
          else at3 res x y k\<rparr>"
proof -
  let ?N = "int (length sizes)"
  let ?I = "integralImage predictions"
  let ?val = "\<lambda>x y k. average_features sizes x y (k div ?N) ?I (replicate (length sizes) 0)
                          ! nat (k mod ?N)"
  have ly: "fold (\<lambda>y. avContext2Dmulti_body sizes ?I c x y) ys s
     = s\<lparr>at3 := \<lambda>x' y' k.
          if (\<exists>y\<in>set ys. x' = x \<and> y' = y \<and> c * ?N \<le> k \<and> k < c * ?N + ?N)
          then ?val x' y' k else at3 s x' y' k\<rparr>" for c x ys s
    by (rule fold_writes3) (rule avContext2Dmulti_body_writes)
  have lx: "fold (\<lambda>x. fold (\<lambda>y. avContext2Dmulti_body sizes ?I c x y) ys) xs s
     = s\<lparr>at3 := \<lambda>x' y' k.
          if (\<exists>x\<in>set xs. \<exists>y\<in>set ys. x' = x \<and> y' = y \<and> c * ?N \<le> k \<and> k < c * ?N + ?N)
          then ?val x' y' k else at3 s x' y' k\<rparr>" for c xs ys s
    by (rule fold_writes3) (rule ly)
  have lc: "fold (\<lambda>c. fold (\<lambda>x. fold (\<lambda>y. avContext2Dmulti_body sizes ?I c x y) ys) xs) cs s
     = s\<lparr>at3 := \<lambda>x' y' k.
          if (\<exists>c\<in>set cs. \<exists>x\<in>set xs. \<exists>y\<in>set ys.
                x' = x \<and> y' = y \<and> c * ?N \<le> k \<and> k < c * ?N + ?N)
          then ?val x' y' k else at3 s x' y' k\<rparr>" for cs xs ys s
    by (rule fold_writes3) (rule lx)
  show ?thesis
    unfolding avContext2Dmulti_def Let_def lc
    by (rule at3_update_cong) auto
qed

lemma nat_diff_length: "nat (k - (b + int n)) = nat (k - b) - n"
  by arith

lemma varContext2Dmulti_body_writes:
  "varContext2Dmulti_body sizes integral integral2 c x y s
     = s\<lparr>at3 := \<lambda>x' y' k.
          if x' = x \<and> y' = y \<and> c * (2 * int (length sizes)) \<le> k
             \<and> k < c * (2 * int (length sizes)) + 2 * int (length sizes)
          then var_feature sizes integral integral2 x' y' k
          else at3 s x' y' k\<rparr>"
proof -
  let ?N = "int (length sizes)"
  let ?B = "c * (2 * ?N)"
  let ?newf = "average_features sizes x y c integral (replicate (length sizes) 0)"
  let ?newf2 = "average_features sizes x y c integral2 (replicate (length sizes) 0)"
  have dm: "k div (2 * ?N) = c \<and> k mod (2 * ?N) = k - ?B"
    if "?B \<le> k" "k < ?B + 2 * ?N" for k
    using block_div_mod [OF that] by simp
  have "varContext2Dmulti_body sizes integral integral2 c x y s
     = s\<lparr>at3 := \<lambda>x' y' k.
          if x' = x \<and> y' = y \<and> ?B + ?N \<le> k \<and> k < ?B + ?N + ?N
          then ?newf2 ! nat (k - (?B + ?N)) - ?newf ! nat (k - (?B + ?N)) * ?newf ! nat (k - (?B + ?N))
          else if x' = x \<and> y' = y \<and> ?B \<le> k \<and> k < ?B + ?N
               then ?newf ! nat (k - ?B) else at3 s x' y' k\<rparr>"
    unfolding varContext2Dmulti_body_def Let_def write_loop3 mult.assoc
    by (simp cong: if_cong)
  also have "\<dots> = s\<lparr>at3 := \<lambda>x' y' k.
          if x' = x \<and> y' = y \<and> ?B \<le> k \<and> k < ?B + 2 * ?N
          then var_feature sizes integral integral2 x' y' k
          else at3 s x' y' k\<rparr>"
  proof (rule at3_update_cong)
    fix x' y' k
    show "(if x' = x \<and> y' = y \<and> ?B + ?N \<le> k \<and> k < ?B + ?N + ?N
          then ?newf2 ! nat (k - (?B + ?N)) - ?newf ! nat (k - (?B + ?N)) * ?newf ! nat (k - (?B + ?N))
          else if x' = x \<and> y' = y \<and> ?B \<le> k \<and> k < ?B + ?N
               then ?newf ! nat (k - ?B) else at3 s x' y' k)
       = (if x' = x \<and> y' = y \<and> ?B \<le> k \<and> k < ?B + 2 * ?N
          then var_feature sizes integral integral2 x' y' k
          else at3 s x' y' k)"
    proof (cases "x' = x \<and> y' = y \<and> ?B \<le> k \<and> k < ?B + 2 * ?N")
      case False
      then show ?thesis by auto
    next
      case True
      then have d: "k div (2 * ?N) = c" "k mod (2 * ?N) = k - ?B" using dm by auto
      show ?thesis
      proof (cases "k < ?B + ?N")
        case True
        with \<open>x' = x \<and> y' = y \<and> ?B \<le> k \<and> k < ?B + 2 * ?N\<close> show ?thesis
          by (simp add: var_feature_def Let_def d nat_less_iff)
      next
        case False
        with \<open>x' = x \<and> y' = y \<and> ?B \<le> k \<and> k < ?B + 2 * ?N\<close> show ?thesis
          by (simp add: var_feature_def Let_def d nat_less_iff nat_diff_length)
      qed
    qed
  qed
  finally show ?thesis .
qed

lemma varContext2Dmulti_writes:
  "varContext2Dmulti sizes predictions res
     = res\<lparr>at3 := \<lambda>x y k.
          if 0 \<le> x \<and> x < sh0 predictions \<and> 0 \<le> y \<and> y < sh1 predictions
             \<and> (\<exists>c. 0 \<le> c \<and> c < sh2 predictions \<and> c * (2 * int (length sizes)) \<le> k
                     \<and> k < c * (2 * int (length sizes)) + 2 * int (length sizes))
          then var_feature sizes (integralImage predictions) (integralImage2 predictions) x y k
          else at3 res x y k\<rparr>"
proof -
  let ?N = "int (length sizes)"
  let ?I = "integralImage predictions"
  let ?I2 = "integralImage2 predictions"
  have ly: "fold (\<lambda>y. varContext2Dmulti_body sizes ?I ?I2 c x y) ys s
     = s\<lparr>at3 := \<lambda>x' y' k.
          if (\<exists>y\<in>set ys. x' = x \<and> y' = y \<and> c * (2 * ?N) \<le> k \<and> k < c * (2 * ?N) + 2 * ?N)
          then var_feature sizes ?I ?I2 x' y' k else at3 s x' y' k\<rparr>" for c x ys s
    by (rule fold_writes3) (rule varContext2Dmulti_body_writes)
  have lx: "fold (\<lambda>x. fold (\<lambda>y. varContext2Dmulti_body sizes ?I ?I2 c x y) ys) xs s
     = s\<lparr>at3 := \<lambda>x' y' k.
          if (\<exists>x\<in>set xs. \<exists>y\<in>set ys.
                x' = x \<and> y' = y \<and> c * (2 * ?N) \<le> k \<and> k < c * (2 * ?N) + 2 * ?N)
          then var_feature sizes ?I ?I2 x' y' k else at3 s x' y' k\<rparr>" for c xs ys s
    by (rule fold_writes3) (rule ly)
  have lc: "fold (\<lambda>c. fold (\<lambda>x. fold (\<lambda>y. varContext2Dmulti_body sizes ?I ?I2 c x y) ys) xs) cs s
     = s\<lparr>at3 := \<lambda>x' y' k.
          if (\<exists>c\<in>set cs. \<exists>x\<in>set xs. \<exists>y\<in>set ys.
                x' = x \<and> y' = y \<and> c * (2 * ?N) \<le> k \<and> k < c * (2 * ?N) + 2 * ?N)
          then var_feature sizes ?I ?I2 x' y' k else at3 s x' y' k\<rparr>" for cs xs ys s
    by (rule fold_writes3) (rule lx)
  show ?thesis
    unfolding varContext2Dmulti_def Let_def lc
    by (rule at3_update_cong) auto
qed

lemma at4_update_cong:
  "(\<And>x y z k. f x y z k = g x y z k) \<Longrightarrow> s\<lparr>at4 := f\<rparr> = s\<lparr>at4 := g\<rparr>"
proof -
  assume "\<And>x y z k. f x y z k = g x y z k"
  then have "f = g" by (intro ext)
  then show ?thesis by simp
qed

lemma fold_writes4:
  assumes "\<And>a s. step a s
              = s\<lparr>at4 := \<lambda>x y z k. if hit a x y z k then val x y z k else at4 s x y z k\<rparr>"
  shows "fold step as s
           = s\<lparr>at4 := \<lambda>x y z k. if (\<exists>a\<in>set as. hit a x y z k) then val x y z k
                                 else at4 s x y z k\<rparr>"
proof (induction as arbitrary: s)
  case Nil
  show ?case by simp
next
  case (Cons a as)
  have eq: "(\<lambda>x y z k. if (\<exists>b\<in>set as. hit b x y z k) then val x y z k
                  else if hit a x y z k then val x y z k else at4 s x y z k)
        = (\<lambda>x y z k. if (\<exists>b\<in>set (a # as). hit b x y z k) then val x y z k
                      else at4 s x y z k)"
    by (intro ext) auto
  have "fold step (a # as) s = fold step as (step a s)" by simp
  also have "\<dots> = (step a s)\<lparr>at4 := \<lambda>x y z k. if (\<exists>b\<in>set as. hit b x y z k) then val x y z k
                                          else at4 (step a s) x y z k\<rparr>"
    by (rule Cons.IH)
  also have "\<dots> = s\<lparr>at4 := \<lambda>x y z k. if (\<exists>b\<in>set as. hit b x y z k) then val x y z k
                  else if hit a x y z k then val x y z k else at4 s x y z k\<rparr>"
    unfolding assms [of a s] by (simp cong: if_cong)
  finally show ?case unfolding eq .
qed

lemma write_loop4:
  "fold (\<lambda>ii res. set4 res x y z (base + int ii) (v ii)) [0..<n] res
     = res\<lparr>at4 := \<lambda>x' y' z' k.
          if x' = x \<and> y' = y \<and> z' = z \<and> base \<le> k \<and> k < base + int n
          then v (nat (k - base)) else at4 res x' y' z' k\<rparr>"
proof -
  have "fold (\<lambda>ii res. set4 res x y z (base + int ii) (v ii)) [0..<n] res
     = res\<lparr>at4 := \<lambda>x' y' z' k.
          if (\<exists>ii\<in>set [0..<n]. x' = x \<and> y' = y \<and> z' = z \<and> k = base + int ii)
          then v (nat (k - base)) else at4 res x' y' z' k\<rparr>"
    by (rule fold_writes4) (auto simp: set4_def intro!: at4_update_cong)
  moreover have "(\<exists>ii\<in>set [0..<n]. x' = x \<and> y' = y \<and> z' = z \<and> k = base + int ii)
      \<longleftrightarrow> x' = x \<and> y' = y \<and> z' = z \<and> base \<le> k \<and> k < base + int n" for x' y' z' k
  proof
    assume "x' = x \<and> y' = y \<and> z' = z \<and> base \<le> k \<and> k < base + int n"
    then have "nat (k - base) \<in> set [0..<n]
        \<and> x' = x \<and> y' = y \<and> z' = z \<and> k = base + int (nat (k - base))"
      by auto
    then show "\<exists>ii\<in>set [0..<n]. x' = x \<and> y' = y \<and> z' = z \<and> k = base + int ii" by blast
  qed auto
  ultimately show ?thesis by simp
qed

lemma varContext3Dmulti_body_writes:
  "varContext3Dmulti_body sizes integral integral2 c x y z s
     = s\<lparr>at4 := \<lambda>x' y' z' k.
          if x' = x \<and> y' = y \<and> z' = z \<and> c * (2 * int (length sizes)) \<le> k
             \<and> k < c * (2 * int (length sizes)) + 2 * int (length sizes)
          then var_feature_3d sizes integral integral2 x' y' z' k
          else at4 s x' y' z' k\<rparr>"
proof -
  let ?N = "int (length sizes)"
  let ?B = "c * (2 * ?N)"
  let ?newf = "average_features_3d_is sizes x y z c integral (replicate (length sizes) 0)"
  let ?newf2 = "average_features_3d_is sizes x y z c integral2 (replicate (length sizes) 0)"
  have dm: "k div (2 * ?N) = c \<and> k mod (2 * ?N) = k - ?B"
    if "?B \<le> k" "k < ?B + 2 * ?N" for k
    using block_div_mod [OF that] by simp
  have "varContext3Dmulti_body sizes integral integral2 c x y z s
     = s\<lparr>at4 := \<lambda>x' y' z' k.
          if x' = x \<and> y' = y \<and> z' = z \<and> ?B + ?N \<le> k \<and> k < ?B + ?N + ?N
          then ?newf2 ! nat (k - (?B + ?N)) - ?newf ! nat (k - (?B + ?N)) * ?newf ! nat (k - (?B + ?N))
          else if x' = x \<and> y' = y \<and> z' = z \<and> ?B \<le> k \<and> k < ?B + ?N
               then ?newf ! nat (k - ?B) else at4 s x' y' z' k\<rparr>"
    unfolding varContext3Dmulti_body_def Let_def write_loop4 mult.assoc
    by (simp cong: if_cong)
  also have "\<dots> = s\<lparr>at4 := \<lambda>x' y' z' k.
          if x' = x \<and> y' = y \<and> z' = z \<and> ?B \<le> k \<and> k < ?B + 2 * ?N
          then var_feature_3d sizes integral integral2 x' y' z' k
          else at4 s x' y' z' k\<rparr>"
  proof (rule at4_update_cong)
    fix x' y' z' k
    show "(if x' = x \<and> y' = y \<and> z' = z \<and> ?B + ?N \<le> k \<and> k < ?B + ?N + ?N
          then ?newf2 ! nat (k - (?B + ?N)) - ?newf ! nat (k - (?B + ?N)) * ?newf ! nat (k - (?B + ?N))
          else if x' = x \<and> y' = y \<and> z' = z \<and> ?B \<le> k \<and> k < ?B + ?N
               then ?newf ! nat (k - ?B) else at4 s x' y' z' k)
       = (if x' = x \<and> y' = y \<and> z' = z \<and> ?B \<le> k \<and> k < ?B + 2 * ?N
          then var_feature_3d sizes integral integral2 x' y' z' k
          else at4 s x' y' z' k)"
    proof (cases "x' = x \<and> y' = y \<and> z' = z \<and> ?B \<le> k \<and> k < ?B + 2 * ?N")
      case False
      then show ?thesis by auto
    next
      case True
      then have d: "k div (2 * ?N) = c" "k mod (2 * ?N) = k - ?B" using dm by auto
      show ?thesis
      proof (cases "k < ?B + ?N")
        case True
        with \<open>x' = x \<and> y' = y \<and> z' = z \<and> ?B \<le> k \<and> k < ?B + 2 * ?N\<close> show ?thesis
          by (simp add: var_feature_3d_def Let_def d nat_less_iff)
      next
        case False
        with \<open>x' = x \<and> y' = y \<and> z' = z \<and> ?B \<le> k \<and> k < ?B + 2 * ?N\<close> show ?thesis
          by (simp add: var_feature_3d_def Let_def d nat_less_iff nat_diff_length)
      qed
    qed
  qed
  finally show ?thesis .
qed

lemma varContext3Dmulti_writes:
  "varContext3Dmulti sizes predictions res
     = res\<lparr>at4 := \<lambda>x y z k.
          if 0 \<le> x \<and> x < vsh0 predictions \<and> 0 \<le> y \<and> y < vsh1 predictions
             \<and> 0 \<le> z \<and> z < vsh2 predictions
             \<and> (\<exists>c. 0 \<le> c \<and> c < vsh3 predictions \<and> c * (2 * int (length sizes)) \<le> k
                     \<and> k < c * (2 * int (length sizes)) + 2 * int (length sizes))
          then var_feature_3d sizes (integralVolume predictions) (integralVolume2 predictions)
                 x y z k
          else at4 res x y z k\<rparr>"
proof -
  let ?N = "int (length sizes)"
  let ?I = "integralVolume predictions"
  let ?I2 = "integralVolume2 predictions"
  let ?hit = "\<lambda>c x y z x' y' z' k. x' = x \<and> y' = y \<and> z' = z
                  \<and> c * (2 * ?N) \<le> k \<and> k < c * (2 * ?N) + 2 * ?N"
  have lz: "fold (\<lambda>z. varContext3Dmulti_body sizes ?I ?I2 c x y z) zs s
     = s\<lparr>at4 := \<lambda>x' y' z' k.
          if (\<exists>z\<in>set zs. ?hit c x y z x' y' z' k)
          then var_feature_3d sizes ?I ?I2 x' y' z' k else at4 s x' y' z' k\<rparr>" for c x y zs s
    by (rule fold_writes4) (rule varContext3Dmulti_body_writes)
  have ly: "fold (\<lambda>y. fold (\<lambda>z. varContext3Dmulti_body sizes ?I ?I2 c x y z) zs) ys s
     = s\<lparr>at4 := \<lambda>x' y' z' k.
          if (\<exists>y\<in>set ys. \<exists>z\<in>set zs. ?hit c x y z x' y' z' k)
          then var_feature_3d sizes ?I ?I2 x' y' z' k else at4 s x' y' z' k\<rparr>" for c x ys zs s
    by (rule fold_writes4) (rule lz)
  have lx: "fold (\<lambda>x. fold (\<lambda>y. fold (\<lambda>z. varContext3Dmulti_body sizes ?I ?I2 c x y z) zs) ys) xs s
     = s\<lparr>at4 := \<lambda>x' y' z' k.
          if (\<exists>x\<in>set xs. \<exists>y\<in>set ys. \<exists>z\<in>set zs. ?hit c x y z x' y' z' k)
          then var_feature_3d sizes ?I ?I2 x' y' z' k else at4 s x' y' z' k\<rparr>" for c xs ys zs s
    by (rule fold_writes4) (rule ly)
  have lc: "fold (\<lambda>c. fold (\<lambda>x. fold (\<lambda>y. fold (\<lambda>z.
                varContext3Dmulti_body sizes ?I ?I2 c x y z) zs) ys) xs) cs s
     = s\<lparr>at4 := \<lambda>x' y' z' k.
          if (\<exists>c\<in>set cs. \<exists>x\<in>set xs. \<exists>y\<in>set ys. \<exists>z\<in>set zs. ?hit c x y z x' y' z' k)
          then var_feature_3d sizes ?I ?I2 x' y' z' k else at4 s x' y' z' k\<rparr>" for cs xs ys zs s
    by (rule fold_writes4) (rule lx)
  show ?thesis
    unfolding varContext3Dmulti_def Let_def lc
    by (rule at4_update_cong) auto
qed

lemma block_index:
  fixes c :: int
  assumes "i < n"
  shows "(c * int n + int i) div int n = c" "(c * int n + int i) mod int n = int i"
  using block_div_mod [of c "int n" "c * int n + int i"] assms by simp_all

lemma block_index2:
  fixes c :: int
  assumes "j < 2 * n"
  shows "(c * (2 * int n) + int j) div (2 * int n) = c"
        "(c * (2 * int n) + int j) mod (2 * int n) = int j"
  using block_div_mod [of c "2 * int n" "c * (2 * int n) + int j"] assms by simp_all

lemma avContext2Dmulti_mean_at:
  assumes "0 \<le> x" "x < sh0 predictions" "0 \<le> y" "y < sh1 predictions"
    and "0 \<le> c" "c < sh2 predictions" "i < length sizes"
  shows "at3 (avContext2Dmulti sizes predictions res) x y (c * int (length sizes) + int i)
           = average_features sizes x y c (integralImage predictions)
               (replicate (length sizes) 0) ! i"
proof -
  have "\<exists>c'. 0 \<le> c' \<and> c' < sh2 predictions \<and> c' * int (length sizes) \<le> c * int (length sizes) + int i
            \<and> c * int (length sizes) + int i < c' * int (length sizes) + int (length sizes)"
    using assms by (intro exI [of _ c]) simp
  with assms show ?thesis
    by (simp add: avContext2Dmulti_writes block_index)
qed

lemma avContext2Dmulti_frame:
  assumes "\<not> (0 \<le> x \<and> x < sh0 predictions \<and> 0 \<le> y \<and> y < sh1 predictions
              \<and> (\<exists>c i. 0 \<le> c \<and> c < sh2 predictions \<and> i < length sizes
                        \<and> k = c * int (length sizes) + int i))"
  shows "at3 (avContext2Dmulti sizes predictions res) x y k = at3 res x y k"
proof -
  have "\<exists>c i. 0 \<le> c \<and> c < sh2 predictions \<and> i < length sizes \<and> k = c * int (length sizes) + int i"
    if "0 \<le> c" "c < sh2 predictions" "c * int (length sizes) \<le> k"
       "k < c * int (length sizes) + int (length sizes)" for c
    using that by (intro exI [of _ c] exI [of _ "nat (k - c * int (length sizes))"]) auto
  with assms show ?thesis
    by (auto simp: avContext2Dmulti_writes)
qed

lemma varContext2Dmulti_mean_at:
  assumes "0 \<le> x" "x < sh0 predictions" "0 \<le> y" "y < sh1 predictions"
    and "0 \<le> c" "c < sh2 predictions" "i < length sizes"
  shows "at3 (varContext2Dmulti sizes predictions res) x y (c * 2 * int (length sizes) + int i)
           = average_features sizes x y c (integralImage predictions)
               (replicate (length sizes) 0) ! i"
proof -
  let ?N = "int (length sizes)"
  let ?k = "c * (2 * ?N) + int i"
  have "\<exists>c'. 0 \<le> c' \<and> c' < sh2 predictions \<and> c' * (2 * ?N) \<le> ?k \<and> ?k < c' * (2 * ?N) + 2 * ?N"
    using assms by (intro exI [of _ c]) simp
  moreover have "?k div (2 * ?N) = c" "?k mod (2 * ?N) = int i"
    using block_index2 [of i "length sizes" c] assms by simp_all
  ultimately show ?thesis
    using assms by (simp add: varContext2Dmulti_writes var_feature_def Let_def mult.assoc)
qed

lemma varContext2Dmulti_variance_at:
  assumes "0 \<le> x" "x < sh0 predictions" "0 \<le> y" "y < sh1 predictions"
    and "0 \<le> c" "c < sh2 predictions" "i < length sizes"
  shows "at3 (varContext2Dmulti sizes predictions res) x y
           (c * 2 * int (length sizes) + int (length sizes) + int i)
           = average_features sizes x y c (integralImage2 predictions)
               (replicate (length sizes) 0) ! i
             - average_features sizes x y c (integralImage predictions)
                 (replicate (length sizes) 0) ! i
               * average_features sizes x y c (integralImage predictions)
                   (replicate (length sizes) 0) ! i"
proof -
  let ?N = "int (length sizes)"
  let ?k = "c * (2 * ?N) + int (length sizes + i)"
  have "\<exists>c'. 0 \<le> c' \<and> c' < sh2 predictions \<and> c' * (2 * ?N) \<le> ?k \<and> ?k < c' * (2 * ?N) + 2 * ?N"
    using assms by (intro exI [of _ c]) simp
  moreover have "?k div (2 * ?N) = c" "?k mod (2 * ?N) = int (length sizes + i)"
    using block_index2 [of "length sizes + i" "length sizes" c] assms by simp_all
  moreover have "c * 2 * ?N + ?N + int i = ?k" by simp
  ultimately show ?thesis
    using assms unfolding \<open>c * 2 * ?N + ?N + int i = ?k\<close>
    by (simp add: varContext2Dmulti_writes var_feature_def Let_def del: of_nat_add)
qed

lemma varContext2Dmulti_frame:
  assumes "\<not> (0 \<le> x \<and> x < sh0 predictions \<and> 0 \<le> y \<and> y < sh1 predictions
              \<and> (\<exists>c i. 0 \<le> c \<and> c < sh2 predictions \<and> i < length sizes
                        \<and> (k = c * 2 * int (length sizes) + int i
                            \<or> k = c * 2 * int (length sizes) + int (length sizes) + int i)))"
  shows "at3 (varContext2Dmulti sizes predictions res) x y k = at3 res x y k"
proof -
  let ?N = "int (length sizes)"
  have "\<exists>c i. 0 \<le> c \<and> c < sh2 predictions \<and> i < length sizes
                \<and> (k = c * 2 * ?N + int i \<or> k = c * 2 * ?N + ?N + int i)"
    if c: "0 \<le> c" "c < sh2 predictions" "c * (2 * ?N) \<le> k" "k < c * (2 * ?N) + 2 * ?N" for c
  proof (cases "k < c * (2 * ?N) + ?N")
    case True
    with c show ?thesis
      by (intro exI [of _ c] exI [of _ "nat (k - c * (2 * ?N))"]) auto
  next
    case False
    with c show ?thesis
      by (intro exI [of _ c] exI [of _ "nat (k - c * (2 * ?N) - ?N)"]) auto
  qed
  with assms show ?thesis
    by (auto simp: varContext2Dmulti_writes)
qed

lemma varContext3Dmulti_mean_at:
  assumes "0 \<le> x" "x < vsh0 predictions" "0 \<le> y" "y < vsh1 predictions"
    and "0 \<le> z" "z < vsh2 predictions"
    and "0 \<le> c" "c < vsh3 predictions" "i < length sizes"
  shows "at4 (varContext3Dmulti sizes predictions res) x y z (c * 2 * int (length sizes) + int i)
           = average_features_3d_is sizes x y z c (integralVolume predictions)
               (replicate (length sizes) 0) ! i"
proof -
  let ?N = "int (length sizes)"
  let ?k = "c * (2 * ?N) + int i"
  have "\<exists>c'. 0 \<le> c' \<and> c' < vsh3 predictions \<and> c' * (2 * ?N) \<le> ?k \<and> ?k < c' * (2 * ?N) + 2 * ?N"
    using assms by (intro exI [of _ c]) simp
  moreover have "?k div (2 * ?N) = c" "?k mod (2 * ?N) = int i"
    using block_index2 [of i "length sizes" c] assms by simp_all
  ultimately show ?thesis
    using assms by (simp add: varContext3Dmulti_writes var_feature_3d_def Let_def mult.assoc)
qed

lemma varContext3Dmulti_variance_at:
  assumes "0 \<le> x" "x < vsh0 predictions" "0 \<le> y" "y < vsh1 predictions"
    and "0 \<le> z" "z < vsh2 predictions"
    and "0 \<le> c" "c < vsh3 predictions" "i < length sizes"
  shows "at4 (varContext3Dmulti sizes predictions res) x y z
           (c * 2 * int (length sizes) + int (length sizes) + int i)
           = average_features_3d_is sizes x y z c (integralVolume2 predictions)
               (replicate (length sizes) 0) ! i
             - average_features_3d_is sizes x y z c (integralVolume predictions)
                 (replicate (length sizes) 0) ! i
               * average_features_3d_is sizes x y z c (integralVolume predictions)
                   (replicate (length sizes) 0) ! i"
proof -
  let ?N = "int (length sizes)"
  let ?k = "c * (2 * ?N) + int (length sizes + i)"
  have "\<exists>c'. 0 \<le> c' \<and> c' < vsh3 predictions \<and> c' * (2 * ?N) \<le> ?k \<and> ?k < c' * (2 * ?N) + 2 * ?N"
    using assms by (intro exI [of _ c]) simp
  moreover have "?k div (2 * ?N) = c" "?k mod (2 * ?N) = int (length sizes + i)"
    using block_index2 [of "length sizes + i" "length sizes" c] assms by simp_all
  moreover have "c * 2 * ?N + ?N + int i = ?k" by simp
  ultimately show ?thesis
    using assms unfolding \<open>c * 2 * ?N + ?N + int i = ?k\<close>
    by (simp add: varContext3Dmulti_writes var_feature_3d_def Let_def del: of_nat_add)
qed

lemma varContext3Dmulti_frame:
  assumes "\<not> (0 \<le> x \<and> x < vsh0 predictions \<and> 0 \<le> y \<and> y < vsh1 predictions
              \<and> 0 \<le> z \<and> z < vsh2 predictions
              \<and> (\<exists>c i. 0 \<le> c \<and> c < vsh3 predictions \<and> i < length sizes
                        \<and> (k = c * 2 * int (length sizes) + int i
                            \<or> k = c * 2 * int (length sizes) + int (length sizes) + int i)))"
  shows "at4 (varContext3Dmulti sizes predictions res) x y z k = at4 res x y z k"
proof -
  let ?N = "int (length sizes)"
  have "\<exists>c i. 0 \<le> c \<and> c < vsh3 predictions \<and> i < length sizes
                \<and> (k = c * 2 * ?N + int i \<or> k = c * 2 * ?N + ?N + int i)"
    if c: "0 \<le> c" "c < vsh3 predictions" "c * (2 * ?N) \<le> k" "k < c * (2 * ?N) + 2 * ?N" for c
  proof (cases "k < c * (2 * ?N) + ?N")
    case True
    with c show ?thesis
      by (intro exI [of _ c] exI [of _ "nat (k - c * (2 * ?N))"]) auto
  next
    case False
    with c show ?thesis
      by (intro exI [of _ c] exI [of _ "nat (k - c * (2 * ?N) - ?N)"]) auto
  qed
  with assms show ?thesis
    by (auto simp: varContext3Dmulti_writes)
qed

text \<open>
  Claim C8. For every channel \<open>c\<close> below \<open>nclasses\<close>, every location inside the input and
  every radius index \<open>i\<close> below \<open>n_radii\<close>: \<^verbatim>\<open>avContext2Dmulti\<close> writes the mean for
  \<open>(c, i)\<close> to the output channel \<open>c*n_radii + i\<close>; \<^verbatim>\<open>varContext2Dmulti\<close> and
  \<^verbatim>\<open>varContext3Dmulti\<close> write the mean to the channel \<open>c*2*n_radii + i\<close> and the variance
  \<^verbatim>\<open>newf2[i] - newf[i]*newf[i]\<close> to the channel \<open>c*2*n_radii + n_radii + i\<close>. An output
  channel that is not of this form keeps its value at every location.
\<close>

theorem output_channel_layout:
  fixes predictions res :: array3 and vpredictions vres :: array4
  shows
   "(0 \<le> x \<and> x < sh0 predictions \<and> 0 \<le> y \<and> y < sh1 predictions
       \<and> 0 \<le> c \<and> c < sh2 predictions \<and> i < length sizes \<longrightarrow>
        at3 (avContext2Dmulti sizes predictions res) x y (c * int (length sizes) + int i)
          = average_features sizes x y c (integralImage predictions)
              (replicate (length sizes) 0) ! i
      \<and> at3 (varContext2Dmulti sizes predictions res) x y (c * 2 * int (length sizes) + int i)
          = average_features sizes x y c (integralImage predictions)
              (replicate (length sizes) 0) ! i
      \<and> at3 (varContext2Dmulti sizes predictions res) x y
            (c * 2 * int (length sizes) + int (length sizes) + int i)
          = average_features sizes x y c (integralImage2 predictions)
              (replicate (length sizes) 0) ! i
            - average_features sizes x y c (integralImage predictions)
                (replicate (length sizes) 0) ! i
              * average_features sizes x y c (integralImage predictions)
                  (replicate (length sizes) 0) ! i)
    \<and> (\<not> (\<exists>c i. 0 \<le> c \<and> c < sh2 predictions \<and> i < length sizes
                  \<and> k = c * int (length sizes) + int i) \<longrightarrow>
        at3 (avContext2Dmulti sizes predictions res) x y k = at3 res x y k)
    \<and> (\<not> (\<exists>c i. 0 \<le> c \<and> c < sh2 predictions \<and> i < length sizes
                  \<and> (k = c * 2 * int (length sizes) + int i
                      \<or> k = c * 2 * int (length sizes) + int (length sizes) + int i)) \<longrightarrow>
        at3 (varContext2Dmulti sizes predictions res) x y k = at3 res x y k)
    \<and> (0 \<le> x \<and> x < vsh0 vpredictions \<and> 0 \<le> y \<and> y < vsh1 vpredictions
       \<and> 0 \<le> z \<and> z < vsh2 vpredictions
       \<and> 0 \<le> c \<and> c < vsh3 vpredictions \<and> i < length sizes \<longrightarrow>
        at4 (varContext3Dmulti sizes vpredictions vres) x y z (c * 2 * int (length sizes) + int i)
          = average_features_3d_is sizes x y z c (integralVolume vpredictions)
              (replicate (length sizes) 0) ! i
      \<and> at4 (varContext3Dmulti sizes vpredictions vres) x y z
            (c * 2 * int (length sizes) + int (length sizes) + int i)
          = average_features_3d_is sizes x y z c (integralVolume2 vpredictions)
              (replicate (length sizes) 0) ! i
            - average_features_3d_is sizes x y z c (integralVolume vpredictions)
                (replicate (length sizes) 0) ! i
              * average_features_3d_is sizes x y z c (integralVolume vpredictions)
                  (replicate (length sizes) 0) ! i)
    \<and> (\<not> (\<exists>c i. 0 \<le> c \<and> c < vsh3 vpredictions \<and> i < length sizes
                  \<and> (k = c * 2 * int (length sizes) + int i
                      \<or> k = c * 2 * int (length sizes) + int (length sizes) + int i)) \<longrightarrow>
        at4 (varContext3Dmulti sizes vpredictions vres) x y z k = at4 vres x y z k)"
proof (intro conjI impI)
  assume "\<not> (\<exists>c i. 0 \<le> c \<and> c < sh2 predictions \<and> i < length sizes
                  \<and> k = c * int (length sizes) + int i)"
  then show "at3 (avContext2Dmulti sizes predictions res) x y k = at3 res x y k"
    by (intro avContext2Dmulti_frame) blast
next
  assume "\<not> (\<exists>c i. 0 \<le> c \<and> c < sh2 predictions \<and> i < length sizes
                  \<and> (k = c * 2 * int (length sizes) + int i
                      \<or> k = c * 2 * int (length sizes) + int (length sizes) + int i))"
  then show "at3 (varContext2Dmulti sizes predictions res) x y k = at3 res x y k"
    by (intro varContext2Dmulti_frame) blast
next
  assume "\<not> (\<exists>c i. 0 \<le> c \<and> c < vsh3 vpredictions \<and> i < length sizes
                  \<and> (k = c * 2 * int (length sizes) + int i
                      \<or> k = c * 2 * int (length sizes) + int (length sizes) + int i))"
  then show "at4 (varContext3Dmulti sizes vpredictions vres) x y z k = at4 vres x y z k"
    by (intro varContext3Dmulti_frame) blast
qed (simp_all add: avContext2Dmulti_mean_at varContext2Dmulti_mean_at
       varContext2Dmulti_variance_at varContext3Dmulti_mean_at varContext3Dmulti_variance_at)

theorem output_channel_layout_witness:
  "at3 (avContext2Dmulti [0, 1] ramp_field (zeros3 3 3 4)) 1 1 1 = 4
   \<and> at3 (varContext2Dmulti [0, 1] ramp_field (zeros3 3 3 4)) 1 1 1 = 4
   \<and> at3 (varContext2Dmulti [0, 1] ramp_field (zeros3 3 3 4)) 1 1 3 = 15 / 2
   \<and> at3 (avContext2Dmulti [0, 1] ramp_field (zeros3 3 3 4)) 1 1 2 = 0
   \<and> at3 (varContext2Dmulti [0, 1] ramp_field (zeros3 3 3 4)) 1 1 4 = 0
   \<and> at4 (varContext3Dmulti [0, 1] ramp_volume (zeros4 3 3 3 4)) 1 1 1 1 = 13
   \<and> at4 (varContext3Dmulti [0, 1] ramp_volume (zeros4 3 3 3 4)) 1 1 1 3 = 63
   \<and> at4 (varContext3Dmulti [0, 1] ramp_volume (zeros4 3 3 3 4)) 1 1 1 4 = 0"
proof -
  have a: "average_features [0, 1] 1 1 0 (integralImage ramp_field) [0, 0] = [4, 4]"
    by (simp add: average_features_def average_features_body_def out_of_border_def box_sum_def
        divisor_def integralImage_def ramp_field_def prefix_sum2_def prefix_sum1_def
        upto_rec1 upt_rec Let_def)
  have a2: "average_features [0, 1] 1 1 0 (integralImage2 ramp_field) [0, 0] = [16, 47 / 2]"
    by (simp add: average_features_def average_features_body_def out_of_border_def box_sum_def
        divisor_def integralImage2_def ramp_field_def prefix_sum2_def prefix_sum1_def
        upto_rec1 upt_rec Let_def)
  have b: "average_features_3d_is [0, 1] 1 1 1 0 (integralVolume ramp_volume) [0, 0] = [13, 13]"
    by (simp add: average_features_3d_is_def average_features_3d_is_body_def
        out_of_border_3d_def box_sum_3d_def divisor_3d_def n_prev_def integralVolume_def
        ramp_volume_def prefix_sum3_def prefix_sum2_def prefix_sum1_def upto_rec1 upt_rec Let_def)
  have b2: "average_features_3d_is [0, 1] 1 1 1 0 (integralVolume2 ramp_volume) [0, 0]
              = [169, 232]"
    by (simp add: average_features_3d_is_def average_features_3d_is_body_def
        out_of_border_3d_def box_sum_3d_def divisor_3d_def n_prev_def integralVolume2_def
        ramp_volume_def prefix_sum3_def prefix_sum2_def prefix_sum1_def upto_rec1 upt_rec Let_def)
  have n2: "\<not> (\<exists>c i. 0 \<le> c \<and> c < sh2 ramp_field \<and> i < length [0, 1 :: int]
                  \<and> (2::int) = c * int (length [0, 1 :: int]) + int i)"
    by (auto simp: ramp_field_def)
  have n4: "\<not> (\<exists>c i. 0 \<le> c \<and> c < sh2 ramp_field \<and> i < length [0, 1 :: int]
                  \<and> ((4::int) = c * 2 * int (length [0, 1 :: int]) + int i
                      \<or> 4 = c * 2 * int (length [0, 1 :: int]) + int (length [0, 1 :: int]) + int i))"
    by (auto simp: ramp_field_def)
  have m4: "\<not> (\<exists>c i. 0 \<le> c \<and> c < vsh3 ramp_volume \<and> i < length [0, 1 :: int]
                  \<and> ((4::int) = c * 2 * int (length [0, 1 :: int]) + int i
                      \<or> 4 = c * 2 * int (length [0, 1 :: int]) + int (length [0, 1 :: int]) + int i))"
    by (auto simp: ramp_volume_def)
  have s: "sh0 ramp_field = 3" "sh1 ramp_field = 3" "sh2 ramp_field = 1"
      "vsh0 ramp_volume = 3" "vsh1 ramp_volume = 3" "vsh2 ramp_volume = 3" "vsh3 ramp_volume = 1"
    by (simp_all add: ramp_field_def ramp_volume_def)
  have "at3 (avContext2Dmulti [0, 1] ramp_field (zeros3 3 3 4)) 1 1 1 = 4
   \<and> at3 (varContext2Dmulti [0, 1] ramp_field (zeros3 3 3 4)) 1 1 1 = 4
   \<and> at3 (varContext2Dmulti [0, 1] ramp_field (zeros3 3 3 4)) 1 1 3 = 15 / 2
   \<and> at4 (varContext3Dmulti [0, 1] ramp_volume (zeros4 3 3 3 4)) 1 1 1 1 = 13
   \<and> at4 (varContext3Dmulti [0, 1] ramp_volume (zeros4 3 3 3 4)) 1 1 1 3 = 63"
    using output_channel_layout [of 1 ramp_field 1 0 1 "[0, 1]" "zeros3 3 3 4" 0
        ramp_volume 1 "zeros4 3 3 3 4"] a a2 b b2 s
    by simp
  moreover have "at3 (avContext2Dmulti [0, 1] ramp_field (zeros3 3 3 4)) 1 1 2 = 0"
    using output_channel_layout [of 1 ramp_field 1 0 1 "[0, 1]" "zeros3 3 3 4" 2
        ramp_volume 1 "zeros4 3 3 3 4"] n2
    by (simp add: zeros3_def)
  moreover have "at3 (varContext2Dmulti [0, 1] ramp_field (zeros3 3 3 4)) 1 1 4 = 0
     \<and> at4 (varContext3Dmulti [0, 1] ramp_volume (zeros4 3 3 3 4)) 1 1 1 4 = 0"
    using output_channel_layout [of 1 ramp_field 1 0 1 "[0, 1]" "zeros3 3 3 4" 4
        ramp_volume 1 "zeros4 3 3 3 4"] n4 m4
    by (simp add: zeros3_def zeros4_def)
  ultimately show ?thesis by simp
qed

subsection \<open>The border placeholder\<close>

lemma out_of_border_integralImage [simp]:
  "out_of_border r x y (integralImage predictions) = out_of_border r x y predictions"
  "out_of_border r x y (integralImage2 predictions) = out_of_border r x y predictions"
  by (simp_all add: out_of_border_def integralImage_def integralImage2_def)

lemma out_of_border_3d_integralVolume [simp]:
  "out_of_border_3d r x y z (integralVolume predictions) = out_of_border_3d r x y z predictions"
  "out_of_border_3d r x y z (integralVolume2 predictions) = out_of_border_3d r x y z predictions"
  by (simp_all add: out_of_border_3d_def integralVolume_def integralVolume2_def)

lemma nclasses_integral [simp]:
  "sh2 (integralImage predictions) = sh2 predictions"
  "sh2 (integralImage2 predictions) = sh2 predictions"
  "vsh3 (integralVolume vpredictions) = vsh3 vpredictions"
  "vsh3 (integralVolume2 vpredictions) = vsh3 vpredictions"
  by (simp_all add: integralImage_def integralImage2_def integralVolume_def integralVolume2_def)

lemma average_features_border:
  assumes "i < length radii" "length averages = length radii"
    and "out_of_border (radii ! i) x y integral"
  shows "average_features radii x y c integral averages ! i = 1 / real_of_int (sh2 integral)"
  using assms by (subst average_features_nth) simp_all

lemma average_features_3d_is_border:
  assumes "i < length radii" "length averages = length radii"
    and "out_of_border_3d (radii ! i) x y z integral"
  shows "average_features_3d_is radii x y z c integral averages ! i
           = 1 / real_of_int (vsh3 integral)"
  using assms by (subst average_features_3d_is_nth) simp_all

text \<open>
  Claim C3 says that at a location, channel and radius whose box leaves the array every
  feature written by the drivers is \<open>1/nclasses\<close>, the variance features included. The
  mean features are; a variance feature is \<^verbatim>\<open>newf2[i] - newf[i]*newf[i]\<close> of two
  placeholders, that is \<open>1/nclasses - (1/nclasses)\<^sup>2\<close>. On a 3 by 3 image with two channels
  and the radius 1, the variance feature at the corner (0, 0) is 1/4 and not 1/2.
\<close>

theorem border_variance_is_not_placeholder:
  "out_of_border ([1] ! 0) 0 0 (const_field (1 / 2))
   \<and> at3 (varContext2Dmulti [1] (const_field (1 / 2)) (zeros3 3 3 4)) 0 0
        (0 * 2 * int (length [1 :: int]) + int (length [1 :: int]) + int 0) = 1 / 4
   \<and> at3 (varContext2Dmulti [1] (const_field (1 / 2)) (zeros3 3 3 4)) 0 0
        (0 * 2 * int (length [1 :: int]) + int (length [1 :: int]) + int 0)
      \<noteq> 1 / real_of_int (sh2 (const_field (1 / 2)))"
proof -
  have ob: "out_of_border ([1] ! 0) 0 0 (const_field (1 / 2))"
    by (simp add: out_of_border_def const_field_def)
  have s: "sh0 (const_field (1 / 2)) = 3" "sh1 (const_field (1 / 2)) = 3"
      "sh2 (const_field (1 / 2)) = 2"
    by (simp_all add: const_field_def)
  have "at3 (varContext2Dmulti [1] (const_field (1 / 2)) (zeros3 3 3 4)) 0 0
        (0 * 2 * int (length [1 :: int]) + int (length [1 :: int]) + int 0) = 1 / 4"
    using ob by (subst varContext2Dmulti_variance_at) (simp_all add: s average_features_border)
  with ob s show ?thesis by simp
qed

text \<open>
  Claim C3, amended. At every location inside the input, every channel and every radius
  whose box leaves the array, the mean features written by \<^verbatim>\<open>avContext2Dmulti\<close>,
  \<^verbatim>\<open>varContext2Dmulti\<close> and \<^verbatim>\<open>varContext3Dmulti\<close> are exactly \<open>1/nclasses\<close>, and the
  variance features written by \<^verbatim>\<open>varContext2Dmulti\<close> and \<^verbatim>\<open>varContext3Dmulti\<close> are
  exactly \<open>1/nclasses - (1/nclasses)\<^sup>2\<close>; neither depends on the values of the input, so no
  partial box sum enters them.
\<close>

theorem border_placeholder:
  fixes predictions res :: array3 and vpredictions vres :: array4
  shows
   "(0 \<le> x \<and> x < sh0 predictions \<and> 0 \<le> y \<and> y < sh1 predictions
       \<and> 0 \<le> c \<and> c < sh2 predictions \<and> i < length sizes
       \<and> out_of_border (sizes ! i) x y predictions \<longrightarrow>
        at3 (avContext2Dmulti sizes predictions res) x y (c * int (length sizes) + int i)
          = 1 / real_of_int (sh2 predictions)
      \<and> at3 (varContext2Dmulti sizes predictions res) x y (c * 2 * int (length sizes) + int i)
          = 1 / real_of_int (sh2 predictions)
      \<and> at3 (varContext2Dmulti sizes predictions res) x y
            (c * 2 * int (length sizes) + int (length sizes) + int i)
          = 1 / real_of_int (sh2 predictions)
            - 1 / real_of_int (sh2 predictions) * (1 / real_of_int (sh2 predictions)))
    \<and> (0 \<le> x \<and> x < vsh0 vpredictions \<and> 0 \<le> y \<and> y < vsh1 vpredictions
       \<and> 0 \<le> z \<and> z < vsh2 vpredictions
       \<and> 0 \<le> c \<and> c < vsh3 vpredictions \<and> i < length sizes
       \<and> out_of_border_3d (sizes ! i) x y z vpredictions \<longrightarrow>
        at4 (varContext3Dmulti sizes vpredictions vres) x y z (c * 2 * int (length sizes) + int i)
          = 1 / real_of_int (vsh3 vpredictions)
      \<and> at4 (varContext3Dmulti sizes vpredictions vres) x y z
            (c * 2 * int (length sizes) + int (length sizes) + int i)
          = 1 / real_of_int (vsh3 vpredictions)
            - 1 / real_of_int (vsh3 vpredictions) * (1 / real_of_int (vsh3 vpredictions)))"
  by (simp add: avContext2Dmulti_mean_at varContext2Dmulti_mean_at
      varContext2Dmulti_variance_at varContext3Dmulti_mean_at varContext3Dmulti_variance_at
      average_features_border average_features_3d_is_border)

theorem border_placeholder_witness:
  "out_of_border ([1] ! 0) 0 0 (const_field (1 / 2))
   \<and> at3 (avContext2Dmulti [1] (const_field (1 / 2)) (zeros3 3 3 4)) 0 0 0 = 1 / 2
   \<and> at3 (varContext2Dmulti [1] (const_field (1 / 2)) (zeros3 3 3 4)) 0 0 0 = 1 / 2
   \<and> at3 (varContext2Dmulti [1] (const_field (1 / 2)) (zeros3 3 3 4)) 0 0 1 = 1 / 4
   \<and> out_of_border_3d ([1] ! 0) 0 0 0 (const_volume (1 / 2))
   \<and> at4 (varContext3Dmulti [1] (const_volume (1 / 2)) (zeros4 3 3 3 4)) 0 0 0 0 = 1 / 2
   \<and> at4 (varContext3Dmulti [1] (const_volume (1 / 2)) (zeros4 3 3 3 4)) 0 0 0 1 = 1 / 4"
proof -
  have ob: "out_of_border ([1] ! 0) 0 0 (const_field (1 / 2))"
      "out_of_border_3d ([1] ! 0) 0 0 0 (const_volume (1 / 2))"
    by (simp_all add: out_of_border_def const_field_def out_of_border_3d_def const_volume_def)
  have s: "sh0 (const_field (1 / 2)) = 3" "sh1 (const_field (1 / 2)) = 3"
      "sh2 (const_field (1 / 2)) = 2"
      "vsh0 (const_volume (1 / 2)) = 3" "vsh1 (const_volume (1 / 2)) = 3"
      "vsh2 (const_volume (1 / 2)) = 3" "vsh3 (const_volume (1 / 2)) = 2"
    by (simp_all add: const_field_def const_volume_def)
  show ?thesis
    using border_placeholder [of 0 "const_field (1 / 2)" 0 0 0 "[1]" "zeros3 3 3 4"
        "const_volume (1 / 2)" 0 "zeros4 3 3 3 4"] ob s
    by simp
qed

subsection \<open>Constant fields\<close>

lemma sum_list_upto_const:
  assumes "a \<le> b + 1" and "\<And>i. a \<le> i \<Longrightarrow> i \<le> b \<Longrightarrow> f i = (v::real)"
  shows "(\<Sum>i\<leftarrow>[a..b]. f i) = v * real_of_int (b - a + 1)"
proof -
  have "(\<Sum>i\<leftarrow>[a..b]. f i) = (\<Sum>i\<leftarrow>[a..b]. v)"
    by (rule arg_cong [where f = sum_list], rule map_cong) (simp_all add: assms(2))
  also have "\<dots> = v * real_of_int (b - a + 1)"
    using assms(1) by (simp add: sum_list_triv)
  finally show ?thesis .
qed

lemma brute_box_sum_const:
  assumes "\<not> out_of_border r x y a" "0 \<le> r"
    and "\<And>i j. 0 \<le> i \<Longrightarrow> i < sh0 a \<Longrightarrow> 0 \<le> j \<Longrightarrow> j < sh1 a \<Longrightarrow> at3 field i j c = k"
  shows "brute_box_sum field r x y c = k * real_of_int ((2 * r + 1) * (2 * r + 1))"
proof -
  from assms(1) have b: "r \<le> x" "r \<le> y" "x + r < sh0 a" "y + r < sh1 a"
    by (auto simp: out_of_border_def)
  have inner: "(\<Sum>j\<leftarrow>[y - r..y + r]. at3 field i j c) = k * real_of_int (2 * r + 1)"
    if "x - r \<le> i" "i \<le> x + r" for i
    using that b assms(2) by (subst sum_list_upto_const [where v = k]) (simp_all add: assms(3))
  have "brute_box_sum field r x y c = (k * real_of_int (2 * r + 1)) * real_of_int (2 * r + 1)"
    unfolding brute_box_sum_def
    using assms(2) by (subst sum_list_upto_const [where v = "k * real_of_int (2 * r + 1)"])
      (simp_all add: inner)
  then show ?thesis by simp
qed

lemma brute_box_sum_3d_const:
  assumes "\<not> out_of_border_3d r x y z a" "0 \<le> r"
    and "\<And>i j m. 0 \<le> i \<Longrightarrow> i < vsh0 a \<Longrightarrow> 0 \<le> j \<Longrightarrow> j < vsh1 a
            \<Longrightarrow> 0 \<le> m \<Longrightarrow> m < vsh2 a \<Longrightarrow> at4 field i j m c = k"
  shows "brute_box_sum_3d field r x y z c
           = k * real_of_int ((2 * r + 1) * (2 * r + 1) * (2 * r + 1))"
proof -
  from assms(1) have b: "r \<le> x" "r \<le> y" "r \<le> z"
      "x + r < vsh0 a" "y + r < vsh1 a" "z + r < vsh2 a"
    by (auto simp: out_of_border_3d_def)
  have inner: "(\<Sum>m\<leftarrow>[z - r..z + r]. at4 field i j m c) = k * real_of_int (2 * r + 1)"
    if "x - r \<le> i" "i \<le> x + r" "y - r \<le> j" "j \<le> y + r" for i j
    using that b assms(2) by (subst sum_list_upto_const [where v = k]) (simp_all add: assms(3))
  have middle: "(\<Sum>j\<leftarrow>[y - r..y + r]. \<Sum>m\<leftarrow>[z - r..z + r]. at4 field i j m c)
                  = k * real_of_int (2 * r + 1) * real_of_int (2 * r + 1)"
    if "x - r \<le> i" "i \<le> x + r" for i
    using that assms(2)
    by (subst sum_list_upto_const [where v = "k * real_of_int (2 * r + 1)"])
       (simp_all add: inner)
  have "brute_box_sum_3d field r x y z c
          = k * real_of_int (2 * r + 1) * real_of_int (2 * r + 1) * real_of_int (2 * r + 1)"
    unfolding brute_box_sum_3d_def
    using assms(2)
    by (subst sum_list_upto_const
          [where v = "k * real_of_int (2 * r + 1) * real_of_int (2 * r + 1)"])
       (simp_all add: middle)
  then show ?thesis by simp
qed

lemma out_of_border_mono:
  "\<not> out_of_border r x y a \<Longrightarrow> r' \<le> r \<Longrightarrow> \<not> out_of_border r' x y a"
  by (auto simp: out_of_border_def)

lemma out_of_border_3d_mono:
  "\<not> out_of_border_3d r x y z a \<Longrightarrow> r' \<le> r \<Longrightarrow> \<not> out_of_border_3d r' x y z a"
  by (auto simp: out_of_border_3d_def)

lemma average_features_const:
  assumes ex: "exact_integral integral field" and c: "0 \<le> c" "c < sh2 integral"
    and const: "\<And>i j. 0 \<le> i \<Longrightarrow> i < sh0 integral \<Longrightarrow> 0 \<le> j \<Longrightarrow> j < sh1 integral
                  \<Longrightarrow> at3 field i j c = k"
    and sorted: "sorted_wrt (<) radii" and nonneg: "\<forall>r\<in>set radii. 0 \<le> r"
    and len: "length averages = length radii"
  shows "i < length radii \<Longrightarrow> \<not> out_of_border (radii ! i) x y integral
           \<Longrightarrow> (2 * radii ! i + 1) * (2 * radii ! i + 1) \<le> 2147483647
           \<Longrightarrow> average_features radii x y c integral averages ! i = k"
proof (induction i)
  case 0
  then have r: "0 \<le> radii ! 0" "\<not> out_of_border (radii ! 0) x y integral"
    using nonneg by auto
  have d0: "divisor radii 0 = (2 * radii ! 0 + 1) * (2 * radii ! 0 + 1)"
    using r(1) "0.prems"(3) by (rule divisor_first)
  have "box_sum (radii ! 0) x y c integral
          = k * real_of_int ((2 * radii ! 0 + 1) * (2 * radii ! 0 + 1))"
    using r by (simp only: box_sum_exact [OF ex r(2,1) c] brute_box_sum_const [OF r(2,1) const])
  moreover have "real_of_int ((2 * radii ! 0 + 1) * (2 * radii ! 0 + 1)) \<noteq> 0"
    using r(1) by simp
  ultimately show ?case
    using 0 len r by (subst average_features_nth) (simp_all add: d0)
next
  case (Suc i)
  then have i: "i < length radii" by simp
  have r: "0 \<le> radii ! Suc i" "\<not> out_of_border (radii ! Suc i) x y integral"
    using Suc.prems nonneg by auto
  have lt: "radii ! i < radii ! Suc i"
    using sorted_wrt_nth_less [OF sorted, of i "Suc i"] Suc.prems(1) by simp
  then have "\<not> out_of_border (radii ! i) x y integral"
    using out_of_border_mono [OF r(2)] by simp
  moreover have "(2 * radii ! i + 1) * (2 * radii ! i + 1) \<le> 2147483647"
    using sq_mono [OF _ lt] nonneg i Suc.prems(3) by simp
  ultimately have IH: "average_features radii x y c integral averages ! i = k"
    using Suc.IH i by simp
  have d: "0 < divisor radii (Suc i)"
    using divisor_pos [OF sorted nonneg Suc.prems(1,3)] .
  have de: "divisor radii (Suc i)
              = (2 * radii ! Suc i + 1) * (2 * radii ! Suc i + 1)
                - (2 * radii ! i + 1) * (2 * radii ! i + 1)"
    using divisor_exact [OF sorted nonneg Suc.prems(1,3)] by simp
  have box: "box_sum (radii ! Suc i) x y c integral
          = k * real_of_int ((2 * radii ! Suc i + 1) * (2 * radii ! Suc i + 1))"
    using r by (simp only: box_sum_exact [OF ex r(2,1) c] brute_box_sum_const [OF r(2,1) const])
  have "box_sum (radii ! Suc i) x y c integral
          - k * real_of_int (2 * radii ! i + 1) * real_of_int (2 * radii ! i + 1)
        = k * real_of_int (divisor radii (Suc i))"
    unfolding box de by (simp add: algebra_simps)
  then have "average_features radii x y c integral averages ! Suc i
               = k * real_of_int (divisor radii (Suc i)) / real_of_int (divisor radii (Suc i))"
    using Suc.prems len r IH by (subst average_features_nth) simp_all
  with d show ?case by simp
qed

lemma average_features_3d_is_const:
  assumes ex: "exact_integral_3d integral field" and c: "0 \<le> c" "c < vsh3 integral"
    and const: "\<And>i j m. 0 \<le> i \<Longrightarrow> i < vsh0 integral \<Longrightarrow> 0 \<le> j \<Longrightarrow> j < vsh1 integral
                  \<Longrightarrow> 0 \<le> m \<Longrightarrow> m < vsh2 integral \<Longrightarrow> at4 field i j m c = k"
    and sorted: "sorted_wrt (<) radii" and nonneg: "\<forall>r\<in>set radii. 0 \<le> r"
    and len: "length averages = length radii"
  shows "i < length radii \<Longrightarrow> \<not> out_of_border_3d (radii ! i) x y z integral
           \<Longrightarrow> (2 * radii ! i + 1) * (2 * radii ! i + 1) * (2 * radii ! i + 1) \<le> 2147483647
           \<Longrightarrow> average_features_3d_is radii x y z c integral averages ! i = k"
proof (induction i)
  case 0
  then have r: "0 \<le> radii ! 0" "\<not> out_of_border_3d (radii ! 0) x y z integral"
    using nonneg by auto
  have d0: "divisor_3d radii 0
              = (2 * radii ! 0 + 1) * (2 * radii ! 0 + 1) * (2 * radii ! 0 + 1)"
    using divisor_3d_exact [OF sorted nonneg "0.prems"(1,3)] by simp
  have "box_sum_3d (radii ! 0) x y z c integral
          = k * real_of_int ((2 * radii ! 0 + 1) * (2 * radii ! 0 + 1) * (2 * radii ! 0 + 1))"
    using r
    by (simp only: box_sum_3d_exact [OF ex r(2,1) c] brute_box_sum_3d_const [OF r(2,1) const])
  moreover have "real_of_int ((2 * radii ! 0 + 1) * (2 * radii ! 0 + 1) * (2 * radii ! 0 + 1)) \<noteq> 0"
    using r(1) by simp
  ultimately show ?case
    using 0 len r by (subst average_features_3d_is_nth) (simp_all add: d0)
next
  case (Suc i)
  then have i: "i < length radii" by simp
  have r: "0 \<le> radii ! Suc i" "\<not> out_of_border_3d (radii ! Suc i) x y z integral"
    using Suc.prems nonneg by auto
  have lt: "radii ! i < radii ! Suc i"
    using sorted_wrt_nth_less [OF sorted, of i "Suc i"] Suc.prems(1) by simp
  then have "\<not> out_of_border_3d (radii ! i) x y z integral"
    using out_of_border_3d_mono [OF r(2)] by simp
  moreover have "(2 * radii ! i + 1) * (2 * radii ! i + 1) * (2 * radii ! i + 1) \<le> 2147483647"
    using cube_mono [OF _ lt] nonneg i Suc.prems(3) by simp
  ultimately have IH: "average_features_3d_is radii x y z c integral averages ! i = k"
    using Suc.IH i by simp
  have d: "0 < divisor_3d radii (Suc i)"
    using divisor_3d_pos [OF sorted nonneg Suc.prems(1,3)] .
  have de: "divisor_3d radii (Suc i)
              = (2 * radii ! Suc i + 1) * (2 * radii ! Suc i + 1) * (2 * radii ! Suc i + 1)
                - (2 * radii ! i + 1) * (2 * radii ! i + 1) * (2 * radii ! i + 1)"
    using divisor_3d_exact [OF sorted nonneg Suc.prems(1,3)] by simp
  have np: "n_prev radii (Suc i)
              = (2 * radii ! i + 1) * (2 * radii ! i + 1) * (2 * radii ! i + 1)"
    using n_prev_exact [OF sorted nonneg Suc.prems(1) _ Suc.prems(3)] by simp
  have box: "box_sum_3d (radii ! Suc i) x y z c integral
          = k * real_of_int ((2 * radii ! Suc i + 1) * (2 * radii ! Suc i + 1)
                             * (2 * radii ! Suc i + 1))"
    using r
    by (simp only: box_sum_3d_exact [OF ex r(2,1) c] brute_box_sum_3d_const [OF r(2,1) const])
  have "box_sum_3d (radii ! Suc i) x y z c integral - k * real_of_int (n_prev radii (Suc i))
        = k * real_of_int (divisor_3d radii (Suc i))"
    unfolding box de np by (simp add: algebra_simps)
  then have "average_features_3d_is radii x y z c integral averages ! Suc i
               = k * real_of_int (divisor_3d radii (Suc i)) / real_of_int (divisor_3d radii (Suc i))"
    using Suc.prems len r IH by (subst average_features_3d_is_nth) simp_all
  with d show ?case by simp
qed

text \<open>
  Claim C6 says that on a constant field \<open>k\<close> every mean feature of an in-border radius is
  \<open>k\<close>. The divisor is an \<^verbatim>\<open>int\<close>: on the 46341 by 46341 image that is 1 everywhere,
  with the single radius 23170 at the centre, the box is the whole image, its sum is
  \<open>46341\<^sup>2 = 2147488281\<close>, the divisor wraps around to \<open>-2147479015\<close>, and the mean feature
  is \<open>-2147488281/2147479015\<close> and not 1.
\<close>

theorem constant_field_mean_wrong_for_large_radius:
  "sorted_wrt (<) [23170 :: int] \<and> 0 \<le> [23170 :: int] ! 0
   \<and> \<not> out_of_border ([23170] ! 0) 23170 23170 large_const_field
   \<and> box_sum 23170 23170 23170 0 (integralImage large_const_field) = 2147488281
   \<and> divisor [23170] 0 = - 2147479015
   \<and> at3 (avContext2Dmulti [23170] large_const_field (zeros3 46341 46341 1)) 23170 23170
        (0 * int (length [23170 :: int]) + int 0) = - (2147488281 / 2147479015)
   \<and> at3 (avContext2Dmulti [23170] large_const_field (zeros3 46341 46341 1)) 23170 23170
        (0 * int (length [23170 :: int]) + int 0) \<noteq> 1"
proof -
  have s: "sh0 large_const_field = 46341" "sh1 large_const_field = 46341"
      "sh2 large_const_field = 1"
    by (simp_all add: large_const_field_def)
  have ob: "\<not> out_of_border 23170 23170 23170 large_const_field"
    by (simp add: out_of_border_def s)
  have "box_sum 23170 23170 23170 0 (integralImage large_const_field)
          = brute_box_sum large_const_field 23170 23170 23170 0"
    using ob by (intro box_sum_exact [OF integralImage_exact]) (simp_all add: s)
  also have "\<dots> = 1 * real_of_int ((2 * 23170 + 1) * (2 * 23170 + 1))"
    using ob by (rule brute_box_sum_const) (simp_all add: large_const_field_def)
  finally have b: "box_sum 23170 23170 23170 0 (integralImage large_const_field) = 2147488281"
    by simp
  have d: "divisor [23170] 0 = - 2147479015"
    by (simp add: divisor_def to_int_def)
  have "average_features [23170] 23170 23170 0 (integralImage large_const_field)
          (replicate (length [23170 :: int]) 0) ! 0 = - (2147488281 / 2147479015)"
    using ob by (subst average_features_nth) (simp_all add: b d)
  then have m: "at3 (avContext2Dmulti [23170] large_const_field (zeros3 46341 46341 1))
        23170 23170 (0 * int (length [23170 :: int]) + int 0) = - (2147488281 / 2147479015)"
    by (subst avContext2Dmulti_mean_at) (simp_all add: s)
  show ?thesis
    using ob unfolding m b d by simp
qed

text \<open>
  Claim C6, amended. For a field that is constant \<open>k\<close> on a channel, a list of strictly
  increasing non-negative radii, a location and a radius whose box lies inside the array
  (the boxes of the radii before it then do so too) and whose count \<open>(2r+1)^D\<close> is at most
  \<^verbatim>\<open>INT_MAX\<close> (2147483647), the mean feature that the drivers write for that channel and
  radius is \<open>k\<close> and the variance feature that \<^verbatim>\<open>varContext2Dmulti\<close> and
  \<^verbatim>\<open>varContext3Dmulti\<close> write is 0. The integral arrays are the exact prefix sums of the
  field and of its squares.
\<close>

theorem constant_field_features:
  fixes predictions res :: array3 and vpredictions vres :: array4
  shows
   "((\<forall>x' y'. 0 \<le> x' \<and> x' < sh0 predictions \<and> 0 \<le> y' \<and> y' < sh1 predictions
               \<longrightarrow> at3 predictions x' y' c = k)
       \<and> sorted_wrt (<) sizes \<and> (\<forall>r\<in>set sizes. 0 \<le> r)
       \<and> 0 \<le> x \<and> x < sh0 predictions \<and> 0 \<le> y \<and> y < sh1 predictions
       \<and> 0 \<le> c \<and> c < sh2 predictions
       \<and> i < length sizes \<and> \<not> out_of_border (sizes ! i) x y predictions
       \<and> (2 * sizes ! i + 1) ^ 2 \<le> 2147483647 \<longrightarrow>
        at3 (avContext2Dmulti sizes predictions res) x y (c * int (length sizes) + int i) = k
      \<and> at3 (varContext2Dmulti sizes predictions res) x y (c * 2 * int (length sizes) + int i) = k
      \<and> at3 (varContext2Dmulti sizes predictions res) x y
            (c * 2 * int (length sizes) + int (length sizes) + int i) = 0)
    \<and> ((\<forall>x' y' z'. 0 \<le> x' \<and> x' < vsh0 vpredictions \<and> 0 \<le> y' \<and> y' < vsh1 vpredictions
                  \<and> 0 \<le> z' \<and> z' < vsh2 vpredictions
               \<longrightarrow> at4 vpredictions x' y' z' c = k)
       \<and> sorted_wrt (<) sizes \<and> (\<forall>r\<in>set sizes. 0 \<le> r)
       \<and> 0 \<le> x \<and> x < vsh0 vpredictions \<and> 0 \<le> y \<and> y < vsh1 vpredictions
       \<and> 0 \<le> z \<and> z < vsh2 vpredictions
       \<and> 0 \<le> c \<and> c < vsh3 vpredictions
       \<and> i < length sizes \<and> \<not> out_of_border_3d (sizes ! i) x y z vpredictions
       \<and> (2 * sizes ! i + 1) ^ 3 \<le> 2147483647 \<longrightarrow>
        at4 (varContext3Dmulti sizes vpredictions vres) x y z
            (c * 2 * int (length sizes) + int i) = k
      \<and> at4 (varContext3Dmulti sizes vpredictions vres) x y z
            (c * 2 * int (length sizes) + int (length sizes) + int i) = 0)"
proof (intro conjI impI)
  assume a: "(\<forall>x' y'. 0 \<le> x' \<and> x' < sh0 predictions \<and> 0 \<le> y' \<and> y' < sh1 predictions
               \<longrightarrow> at3 predictions x' y' c = k)
       \<and> sorted_wrt (<) sizes \<and> (\<forall>r\<in>set sizes. 0 \<le> r)
       \<and> 0 \<le> x \<and> x < sh0 predictions \<and> 0 \<le> y \<and> y < sh1 predictions
       \<and> 0 \<le> c \<and> c < sh2 predictions
       \<and> i < length sizes \<and> \<not> out_of_border (sizes ! i) x y predictions
       \<and> (2 * sizes ! i + 1) ^ 2 \<le> 2147483647"
  let ?sq = "predictions\<lparr>at3 := \<lambda>x y c. at3 predictions x y c * at3 predictions x y c\<rparr>"
  have sh: "sh0 (integralImage predictions) = sh0 predictions"
      "sh1 (integralImage predictions) = sh1 predictions"
      "sh0 (integralImage2 predictions) = sh0 predictions"
      "sh1 (integralImage2 predictions) = sh1 predictions"
    by (simp_all add: integralImage_def integralImage2_def)
  have m: "average_features sizes x y c (integralImage predictions)
             (replicate (length sizes) 0) ! i = k"
    using a by (intro average_features_const [OF integralImage_exact])
      (simp_all add: sh power2_eq_square)
  have q: "average_features sizes x y c (integralImage2 predictions)
             (replicate (length sizes) 0) ! i = k * k"
    using a by (intro average_features_const [OF integralImage2_exact])
      (simp_all add: sh power2_eq_square)
  from a show "at3 (avContext2Dmulti sizes predictions res) x y (c * int (length sizes) + int i) = k"
    by (simp add: avContext2Dmulti_mean_at m)
  from a show "at3 (varContext2Dmulti sizes predictions res) x y
                 (c * 2 * int (length sizes) + int i) = k"
    by (simp add: varContext2Dmulti_mean_at m)
  from a show "at3 (varContext2Dmulti sizes predictions res) x y
            (c * 2 * int (length sizes) + int (length sizes) + int i) = 0"
    by (simp add: varContext2Dmulti_variance_at m q)
next
  assume a: "(\<forall>x' y' z'. 0 \<le> x' \<and> x' < vsh0 vpredictions \<and> 0 \<le> y' \<and> y' < vsh1 vpredictions
                  \<and> 0 \<le> z' \<and> z' < vsh2 vpredictions
               \<longrightarrow> at4 vpredictions x' y' z' c = k)
       \<and> sorted_wrt (<) sizes \<and> (\<forall>r\<in>set sizes. 0 \<le> r)
       \<and> 0 \<le> x \<and> x < vsh0 vpredictions \<and> 0 \<le> y \<and> y < vsh1 vpredictions
       \<and> 0 \<le> z \<and> z < vsh2 vpredictions
       \<and> 0 \<le> c \<and> c < vsh3 vpredictions
       \<and> i < length sizes \<and> \<not> out_of_border_3d (sizes ! i) x y z vpredictions
       \<and> (2 * sizes ! i + 1) ^ 3 \<le> 2147483647"
  have sh: "vsh0 (integralVolume vpredictions) = vsh0 vpredictions"
      "vsh1 (integralVolume vpredictions) = vsh1 vpredictions"
      "vsh2 (integralVolume vpredictions) = vsh2 vpredictions"
      "vsh0 (integralVolume2 vpredictions) = vsh0 vpredictions"
      "vsh1 (integralVolume2 vpredictions) = vsh1 vpredictions"
      "vsh2 (integralVolume2 vpredictions) = vsh2 vpredictions"
    by (simp_all add: integralVolume_def integralVolume2_def)
  have m: "average_features_3d_is sizes x y z c (integralVolume vpredictions)
             (replicate (length sizes) 0) ! i = k"
    using a by (intro average_features_3d_is_const [OF integralVolume_exact])
      (simp_all add: sh power3_eq_cube)
  have q: "average_features_3d_is sizes x y z c (integralVolume2 vpredictions)
             (replicate (length sizes) 0) ! i = k * k"
    using a by (intro average_features_3d_is_const [OF integralVolume2_exact])
      (simp_all add: sh power3_eq_cube)
  from a show "at4 (varContext3Dmulti sizes vpredictions vres) x y z
            (c * 2 * int (length sizes) + int i) = k"
    by (simp add: varContext3Dmulti_mean_at m)
  from a show "at4 (varContext3Dmulti sizes vpredictions vres) x y z
            (c * 2 * int (length sizes) + int (length sizes) + int i) = 0"
    by (simp add: varContext3Dmulti_variance_at m q)
qed

theorem constant_field_features_witness:
  "sorted_wrt (<) [0, 1 :: int]
   \<and> \<not> out_of_border ([0, 1] ! 1) 1 1 (const_field 7)
   \<and> at3 (avContext2Dmulti [0, 1] (const_field 7) (zeros3 3 3 8)) 1 1 3 = 7
   \<and> at3 (varContext2Dmulti [0, 1] (const_field 7) (zeros3 3 3 8)) 1 1 5 = 7
   \<and> at3 (varContext2Dmulti [0, 1] (const_field 7) (zeros3 3 3 8)) 1 1 7 = 0
   \<and> \<not> out_of_border_3d ([0, 1] ! 1) 1 1 1 (const_volume 7)
   \<and> at4 (varContext3Dmulti [0, 1] (const_volume 7) (zeros4 3 3 3 8)) 1 1 1 5 = 7
   \<and> at4 (varContext3Dmulti [0, 1] (const_volume 7) (zeros4 3 3 3 8)) 1 1 1 7 = 0"
proof -
  have c: "\<forall>x' y'. 0 \<le> x' \<and> x' < sh0 (const_field 7) \<and> 0 \<le> y' \<and> y' < sh1 (const_field 7)
               \<longrightarrow> at3 (const_field 7) x' y' 1 = 7"
      "\<forall>x' y' z'. 0 \<le> x' \<and> x' < vsh0 (const_volume 7) \<and> 0 \<le> y' \<and> y' < vsh1 (const_volume 7)
                  \<and> 0 \<le> z' \<and> z' < vsh2 (const_volume 7)
               \<longrightarrow> at4 (const_volume 7) x' y' z' 1 = 7"
    by (simp_all add: const_field_def const_volume_def)
  have ob: "\<not> out_of_border ([0, 1] ! 1) 1 1 (const_field 7)"
      "\<not> out_of_border_3d ([0, 1] ! 1) 1 1 1 (const_volume 7)"
    by (simp_all add: out_of_border_def out_of_border_3d_def const_field_def const_volume_def)
  have s: "sh0 (const_field 7) = 3" "sh1 (const_field 7) = 3" "sh2 (const_field 7) = 2"
      "vsh0 (const_volume 7) = 3" "vsh1 (const_volume 7) = 3"
      "vsh2 (const_volume 7) = 3" "vsh3 (const_volume 7) = 2"
    by (simp_all add: const_field_def const_volume_def)
  have srt: "sorted_wrt (<) [0, 1 :: int]" "\<forall>r\<in>set [0, 1 :: int]. 0 \<le> r"
    by simp_all
  show ?thesis
    using constant_field_features [of "const_field 7" 1 7 "[0, 1]" 1 1 1 "zeros3 3 3 8"
        "const_volume 7" 1 "zeros4 3 3 3 8"] c ob s srt
    by simp
qed

subsection \<open>The variance features\<close>

text \<open>
  Claim C4. The variance \<^verbatim>\<open>newf2[i] - newf[i]*newf[i]\<close> written by
  \<^verbatim>\<open>varContext2Dmulti\<close> and \<^verbatim>\<open>varContext3Dmulti\<close> should be non-negative for every
  field, every list of strictly increasing non-negative radii and every radius index,
  also with three or more radii. From the third radius on both \<^verbatim>\<open>newf\<close> and \<^verbatim>\<open>newf2\<close>
  subtract an annulus mean times a full count instead of the previous full sum. On the 5
  by 5 image that is 1 on the eight cells around its centre and 0 elsewhere, with the
  radii 0, 1, 2 at the centre, both vectors are \<open>0, 1, -1/16\<close> and the variance feature of
  the third radius is \<open>-17/256\<close>; on the corresponding 5 by 5 by 5 volume both vectors
  are \<open>0, 1, -1/98\<close> and the variance feature is \<open>-99/9604\<close>.
\<close>

theorem variance_negative_at_third_radius:
  "sorted_wrt (<) [0, 1, 2 :: int]
   \<and> average_features [0, 1, 2] 2 2 0 (integralImage ring_field) [0, 0, 0] = [0, 1, - 1 / 16]
   \<and> average_features [0, 1, 2] 2 2 0 (integralImage2 ring_field) [0, 0, 0] = [0, 1, - 1 / 16]
   \<and> at3 (varContext2Dmulti [0, 1, 2] ring_field (zeros3 5 5 6)) 2 2 5 = - 17 / 256
   \<and> at3 (varContext2Dmulti [0, 1, 2] ring_field (zeros3 5 5 6)) 2 2 5 < 0
   \<and> average_features_3d_is [0, 1, 2] 2 2 2 0 (integralVolume shell_volume) [0, 0, 0]
        = [0, 1, - 1 / 98]
   \<and> average_features_3d_is [0, 1, 2] 2 2 2 0 (integralVolume2 shell_volume) [0, 0, 0]
        = [0, 1, - 1 / 98]
   \<and> at4 (varContext3Dmulti [0, 1, 2] shell_volume (zeros4 5 5 5 6)) 2 2 2 5 = - 99 / 9604
   \<and> at4 (varContext3Dmulti [0, 1, 2] shell_volume (zeros4 5 5 5 6)) 2 2 2 5 < 0"
proof -
  have a: "average_features [0, 1, 2] 2 2 0 (integralImage ring_field) [0, 0, 0]
             = [0, 1, - 1 / 16]"
    by (simp add: average_features_def average_features_body_def out_of_border_def box_sum_def
        divisor_def integralImage_def ring_field_def prefix_sum2_def prefix_sum1_def
        upto_rec1 upt_rec Let_def)
  have a2: "average_features [0, 1, 2] 2 2 0 (integralImage2 ring_field) [0, 0, 0]
             = [0, 1, - 1 / 16]"
    by (simp add: average_features_def average_features_body_def out_of_border_def box_sum_def
        divisor_def integralImage2_def ring_field_def prefix_sum2_def prefix_sum1_def
        upto_rec1 upt_rec Let_def)
  have b: "average_features_3d_is [0, 1, 2] 2 2 2 0 (integralVolume shell_volume) [0, 0, 0]
        = [0, 1, - 1 / 98]"
    by (simp add: average_features_3d_is_def average_features_3d_is_body_def
        out_of_border_3d_def box_sum_3d_def divisor_3d_def n_prev_def integralVolume_def
        shell_volume_def prefix_sum3_def prefix_sum2_def prefix_sum1_def upto_rec1 upt_rec Let_def)
  have b2: "average_features_3d_is [0, 1, 2] 2 2 2 0 (integralVolume2 shell_volume) [0, 0, 0]
        = [0, 1, - 1 / 98]"
    by (simp add: average_features_3d_is_def average_features_3d_is_body_def
        out_of_border_3d_def box_sum_3d_def divisor_3d_def n_prev_def integralVolume2_def
        shell_volume_def prefix_sum3_def prefix_sum2_def prefix_sum1_def upto_rec1 upt_rec Let_def)
  have v: "at3 (varContext2Dmulti [0, 1, 2] ring_field (zeros3 5 5 6)) 2 2 5 = - 17 / 256"
    using varContext2Dmulti_variance_at [of 2 ring_field 2 0 2 "[0, 1, 2]" "zeros3 5 5 6"] a a2
    by (simp add: ring_field_def)
  have w: "at4 (varContext3Dmulti [0, 1, 2] shell_volume (zeros4 5 5 5 6)) 2 2 2 5 = - 99 / 9604"
    using varContext3Dmulti_variance_at [of 2 shell_volume 2 2 0 2 "[0, 1, 2]" "zeros4 5 5 5 6"]
      b b2
    by (simp add: shell_volume_def)
  show ?thesis
    unfolding a a2 b b2 v w by simp
qed

subsection \<open>Frame properties of the calls\<close>

text \<open>
  A loop of assignments through the reference \<^verbatim>\<open>res\<close> changes the heap at \<^verbatim>\<open>res\<close> only,
  and there as the same loop changes the array; the arrays of radii stay as they are.
\<close>

lemma fold_heap3:
  assumes "\<And>a h. ind_arrays h = S \<Longrightarrow>
             steph a h = h\<lparr>arrays3 := (arrays3 h)(res := step a (arrays3 h res))\<rparr>"
  shows "ind_arrays h = S \<Longrightarrow>
           fold steph as h = h\<lparr>arrays3 := (arrays3 h)(res := fold step as (arrays3 h res))\<rparr>"
proof (induction as arbitrary: h)
  case Nil
  show ?case by simp
next
  case (Cons a as)
  let ?h = "h\<lparr>arrays3 := (arrays3 h)(res := step a (arrays3 h res))\<rparr>"
  have 1: "steph a h = ?h" by (rule assms [OF Cons.prems])
  have 2: "ind_arrays ?h = S" using Cons.prems by simp
  have 3: "fold steph as ?h
             = ?h\<lparr>arrays3 := (arrays3 ?h)(res := fold step as (arrays3 ?h res))\<rparr>"
    by (rule Cons.IH [OF 2])
  have 4: "?h\<lparr>arrays3 := (arrays3 ?h)(res := fold step as (arrays3 ?h res))\<rparr>
             = h\<lparr>arrays3 := (arrays3 h)(res := fold step (a # as) (arrays3 h res))\<rparr>"
    by simp
  have "fold steph (a # as) h = fold steph as ?h" by (simp add: 1)
  also note 3
  also note 4
  finally show ?case .
qed

lemma fold_heap4:
  assumes "\<And>a h. ind_arrays h = S \<Longrightarrow>
             steph a h = h\<lparr>arrays4 := (arrays4 h)(res := step a (arrays4 h res))\<rparr>"
  shows "ind_arrays h = S \<Longrightarrow>
           fold steph as h = h\<lparr>arrays4 := (arrays4 h)(res := fold step as (arrays4 h res))\<rparr>"
proof (induction as arbitrary: h)
  case Nil
  show ?case by simp
next
  case (Cons a as)
  let ?h = "h\<lparr>arrays4 := (arrays4 h)(res := step a (arrays4 h res))\<rparr>"
  have 1: "steph a h = ?h" by (rule assms [OF Cons.prems])
  have 2: "ind_arrays ?h = S" using Cons.prems by simp
  have 3: "fold steph as ?h
             = ?h\<lparr>arrays4 := (arrays4 ?h)(res := fold step as (arrays4 ?h res))\<rparr>"
    by (rule Cons.IH [OF 2])
  have 4: "?h\<lparr>arrays4 := (arrays4 ?h)(res := fold step as (arrays4 ?h res))\<rparr>
             = h\<lparr>arrays4 := (arrays4 h)(res := fold step (a # as) (arrays4 h res))\<rparr>"
    by simp
  have "fold steph (a # as) h = fold steph as ?h" by (simp add: 1)
  also note 3
  also note 4
  finally show ?case .
qed

lemma heap_write_loop3:
  "fold (\<lambda>ii h. heap_set3 h res x y (base + int ii) (v ii)) js h
     = h\<lparr>arrays3 := (arrays3 h)
          (res := fold (\<lambda>ii r. set3 r x y (base + int ii) (v ii)) js (arrays3 h res))\<rparr>"
  by (rule fold_heap3 [where S = "ind_arrays h"]) (simp_all add: heap_set3_def)

lemma heap_write_loop4:
  "fold (\<lambda>ii h. heap_set4 h res x y z (base + int ii) (v ii)) js h
     = h\<lparr>arrays4 := (arrays4 h)
          (res := fold (\<lambda>ii r. set4 r x y z (base + int ii) (v ii)) js (arrays4 h res))\<rparr>"
  by (rule fold_heap4 [where S = "ind_arrays h"]) (simp_all add: heap_set4_def)

lemma avContext2Dmulti_ref_body_eq:
  assumes "ind_arrays h = S"
  shows "avContext2Dmulti_ref_body sizes res integral (length (S sizes)) c x y h
           = h\<lparr>arrays3 := (arrays3 h)
                (res := avContext2Dmulti_body (S sizes) integral c x y (arrays3 h res))\<rparr>"
  using assms
  by (simp add: avContext2Dmulti_ref_body_def avContext2Dmulti_body_def Let_def
      heap_write_loop3)

lemma varContext2Dmulti_ref_body_eq:
  assumes "ind_arrays h = S"
  shows "varContext2Dmulti_ref_body sizes res integral integral2 (length (S sizes)) c x y h
           = h\<lparr>arrays3 := (arrays3 h)
                (res := varContext2Dmulti_body (S sizes) integral integral2 c x y
                          (arrays3 h res))\<rparr>"
  using assms
  by (simp add: varContext2Dmulti_ref_body_def varContext2Dmulti_body_def Let_def
      heap_write_loop3)

lemma varContext3Dmulti_ref_body_eq:
  assumes "ind_arrays h = S"
  shows "varContext3Dmulti_ref_body sizes res integral integral2 (length (S sizes)) c x y z h
           = h\<lparr>arrays4 := (arrays4 h)
                (res := varContext3Dmulti_body (S sizes) integral integral2 c x y z
                          (arrays4 h res))\<rparr>"
  using assms
  by (simp add: varContext3Dmulti_ref_body_def varContext3Dmulti_body_def Let_def
      heap_write_loop4)

text \<open>
  So a call changes the heap at \<^verbatim>\<open>res\<close> as the driver changes the array, from the radii
  and the input that the heap holds when the call begins.
\<close>

lemma avContext2Dmulti_ref_eq:
  "avContext2Dmulti_ref sizes predictions res h
     = h\<lparr>arrays3 := (arrays3 h)
          (res := avContext2Dmulti (ind_arrays h sizes) (arrays3 h predictions)
                    (arrays3 h res))\<rparr>"
proof -
  let ?S = "ind_arrays h"
  let ?n = "length (?S sizes)"
  have ly: "fold (\<lambda>y. avContext2Dmulti_ref_body sizes res I ?n c x y) ys h'
              = h'\<lparr>arrays3 := (arrays3 h')
                   (res := fold (\<lambda>y. avContext2Dmulti_body (?S sizes) I c x y) ys
                             (arrays3 h' res))\<rparr>"
    if "ind_arrays h' = ?S" for I c x ys h'
    by (rule fold_heap3 [where S = ?S]) (simp_all add: that avContext2Dmulti_ref_body_eq)
  have lx: "fold (\<lambda>x. fold (\<lambda>y. avContext2Dmulti_ref_body sizes res I ?n c x y) ys) xs h'
              = h'\<lparr>arrays3 := (arrays3 h')
                   (res := fold (\<lambda>x. fold (\<lambda>y. avContext2Dmulti_body (?S sizes) I c x y) ys)
                             xs (arrays3 h' res))\<rparr>"
    if "ind_arrays h' = ?S" for I c ys xs h'
    by (rule fold_heap3 [where S = ?S]) (simp_all add: that ly)
  have lc: "fold (\<lambda>c. fold (\<lambda>x. fold (\<lambda>y. avContext2Dmulti_ref_body sizes res I ?n c x y) ys)
                          xs) cs h'
              = h'\<lparr>arrays3 := (arrays3 h')
                   (res := fold (\<lambda>c. fold (\<lambda>x. fold (\<lambda>y.
                                   avContext2Dmulti_body (?S sizes) I c x y) ys) xs)
                             cs (arrays3 h' res))\<rparr>"
    if "ind_arrays h' = ?S" for I ys xs cs h'
    by (rule fold_heap3 [where S = ?S]) (simp_all add: that lx)
  show ?thesis
    unfolding avContext2Dmulti_ref_def avContext2Dmulti_def Let_def
    by (rule lc) (rule refl)
qed

lemma varContext2Dmulti_ref_eq:
  "varContext2Dmulti_ref sizes predictions res h
     = h\<lparr>arrays3 := (arrays3 h)
          (res := varContext2Dmulti (ind_arrays h sizes) (arrays3 h predictions)
                    (arrays3 h res))\<rparr>"
proof -
  let ?S = "ind_arrays h"
  let ?n = "length (?S sizes)"
  have ly: "fold (\<lambda>y. varContext2Dmulti_ref_body sizes res I J ?n c x y) ys h'
              = h'\<lparr>arrays3 := (arrays3 h')
                   (res := fold (\<lambda>y. varContext2Dmulti_body (?S sizes) I J c x y) ys
                             (arrays3 h' res))\<rparr>"
    if "ind_arrays h' = ?S" for I J c x ys h'
    by (rule fold_heap3 [where S = ?S]) (simp_all add: that varContext2Dmulti_ref_body_eq)
  have lx: "fold (\<lambda>x. fold (\<lambda>y. varContext2Dmulti_ref_body sizes res I J ?n c x y) ys) xs h'
              = h'\<lparr>arrays3 := (arrays3 h')
                   (res := fold (\<lambda>x. fold (\<lambda>y. varContext2Dmulti_body (?S sizes) I J c x y)
                                        ys)
                             xs (arrays3 h' res))\<rparr>"
    if "ind_arrays h' = ?S" for I J c ys xs h'
    by (rule fold_heap3 [where S = ?S]) (simp_all add: that ly)
  have lc: "fold (\<lambda>c. fold (\<lambda>x. fold (\<lambda>y. varContext2Dmulti_ref_body sizes res I J ?n c x y)
                                   ys) xs) cs h'
              = h'\<lparr>arrays3 := (arrays3 h')
                   (res := fold (\<lambda>c. fold (\<lambda>x. fold (\<lambda>y.
                                   varContext2Dmulti_body (?S sizes) I J c x y) ys) xs)
                             cs (arrays3 h' res))\<rparr>"
    if "ind_arrays h' = ?S" for I J ys xs cs h'
    by (rule fold_heap3 [where S = ?S]) (simp_all add: that lx)
  show ?thesis
    unfolding varContext2Dmulti_ref_def varContext2Dmulti_def Let_def
    by (rule lc) (rule refl)
qed

lemma varContext3Dmulti_ref_eq:
  "varContext3Dmulti_ref sizes predictions res h
     = h\<lparr>arrays4 := (arrays4 h)
          (res := varContext3Dmulti (ind_arrays h sizes) (arrays4 h predictions)
                    (arrays4 h res))\<rparr>"
proof -
  let ?S = "ind_arrays h"
  let ?n = "length (?S sizes)"
  have lz: "fold (\<lambda>z. varContext3Dmulti_ref_body sizes res I J ?n c x y z) zs h'
              = h'\<lparr>arrays4 := (arrays4 h')
                   (res := fold (\<lambda>z. varContext3Dmulti_body (?S sizes) I J c x y z) zs
                             (arrays4 h' res))\<rparr>"
    if "ind_arrays h' = ?S" for I J c x y zs h'
    by (rule fold_heap4 [where S = ?S]) (simp_all add: that varContext3Dmulti_ref_body_eq)
  have ly: "fold (\<lambda>y. fold (\<lambda>z. varContext3Dmulti_ref_body sizes res I J ?n c x y z) zs) ys h'
              = h'\<lparr>arrays4 := (arrays4 h')
                   (res := fold (\<lambda>y. fold (\<lambda>z. varContext3Dmulti_body (?S sizes) I J c x y z)
                                        zs)
                             ys (arrays4 h' res))\<rparr>"
    if "ind_arrays h' = ?S" for I J c x zs ys h'
    by (rule fold_heap4 [where S = ?S]) (simp_all add: that lz)
  have lx: "fold (\<lambda>x. fold (\<lambda>y. fold (\<lambda>z. varContext3Dmulti_ref_body sizes res I J ?n c x y z)
                                   zs) ys) xs h'
              = h'\<lparr>arrays4 := (arrays4 h')
                   (res := fold (\<lambda>x. fold (\<lambda>y. fold (\<lambda>z.
                                   varContext3Dmulti_body (?S sizes) I J c x y z) zs) ys)
                             xs (arrays4 h' res))\<rparr>"
    if "ind_arrays h' = ?S" for I J c zs ys xs h'
    by (rule fold_heap4 [where S = ?S]) (simp_all add: that ly)
  have lc: "fold (\<lambda>c. fold (\<lambda>x. fold (\<lambda>y. fold (\<lambda>z.
                     varContext3Dmulti_ref_body sizes res I J ?n c x y z) zs) ys) xs) cs h'
              = h'\<lparr>arrays4 := (arrays4 h')
                   (res := fold (\<lambda>c. fold (\<lambda>x. fold (\<lambda>y. fold (\<lambda>z.
                                   varContext3Dmulti_body (?S sizes) I J c x y z) zs) ys) xs)
                             cs (arrays4 h' res))\<rparr>"
    if "ind_arrays h' = ?S" for I J zs ys xs cs h'
    by (rule fold_heap4 [where S = ?S]) (simp_all add: that lx)
  show ?thesis
    unfolding varContext3Dmulti_ref_def varContext3Dmulti_def Let_def
    by (rule lc) (rule refl)
qed







lemma avContext2Dmulti_empty: "avContext2Dmulti [] predictions res = res"
proof -
  have "avContext2Dmulti [] predictions res = res\<lparr>at3 := \<lambda>x y k. at3 res x y k\<rparr>"
    unfolding avContext2Dmulti_writes by (rule at3_update_cong) auto
  then show ?thesis by simp
qed

lemma varContext2Dmulti_empty: "varContext2Dmulti [] predictions res = res"
proof -
  have "varContext2Dmulti [] predictions res = res\<lparr>at3 := \<lambda>x y k. at3 res x y k\<rparr>"
    unfolding varContext2Dmulti_writes by (rule at3_update_cong) auto
  then show ?thesis by simp
qed

lemma varContext3Dmulti_empty: "varContext3Dmulti [] predictions res = res"
proof -
  have "varContext3Dmulti [] predictions res = res\<lparr>at4 := \<lambda>x y z k. at4 res x y z k\<rparr>"
    unfolding varContext3Dmulti_writes by (rule at4_update_cong) auto
  then show ?thesis by simp
qed

text \<open>
  Claim C10. With an empty list of radii the loop of \<^verbatim>\<open>average_features\<close> and of
  \<^verbatim>\<open>average_features_3d_is\<close> has no iteration: no corner of the integral array is read
  and the vector is returned as it is, whatever the integral array holds. A call of a
  driver then returns with \<^verbatim>\<open>res\<close>, and the whole heap, unchanged.
\<close>

theorem empty_radius_list_writes_nothing:
  "average_features_reads [] x y c integral = []
   \<and> average_features_3d_is_reads [] x y z c vintegral = []
   \<and> average_features [] x y c integral averages = averages
   \<and> average_features_3d_is [] x y z c vintegral averages = averages
   \<and> avContext2Dmulti [] predictions res = res
   \<and> varContext2Dmulti [] predictions res = res
   \<and> varContext3Dmulti [] vpredictions vres = vres
   \<and> (ind_arrays h sizes_ref = [] \<longrightarrow>
        avContext2Dmulti_ref sizes_ref predictions_ref res_ref h = h
      \<and> varContext2Dmulti_ref sizes_ref predictions_ref res_ref h = h
      \<and> varContext3Dmulti_ref sizes_ref predictions_ref res_ref h = h)"
  by (simp add: average_features_def average_features_3d_is_def
      average_features_reads_def average_features_3d_is_reads_def
      avContext2Dmulti_empty varContext2Dmulti_empty varContext3Dmulti_empty
      avContext2Dmulti_ref_eq varContext2Dmulti_ref_eq varContext3Dmulti_ref_eq)

theorem empty_radius_list_writes_nothing_witness:
  "ind_arrays example_heap 5 = []
   \<and> avContext2Dmulti_ref 5 1 2 example_heap = example_heap
   \<and> varContext2Dmulti_ref 5 1 2 example_heap = example_heap
   \<and> varContext3Dmulti_ref 5 1 2 example_heap = example_heap"
proof -
  have e: "ind_arrays example_heap 5 = []"
    by (simp add: example_heap_def)
  with empty_radius_list_writes_nothing [of 0 0 0 "zeros3 3 3 4" 0 "zeros4 3 3 3 4" "[]"
      ramp_field "zeros3 3 3 4" ramp_volume "zeros4 3 3 3 4" example_heap 5 1 2]
  show ?thesis by simp
qed

end
